theory Spec2Isabelle
  imports Complex_Main
begin

section \<open>JavaScript values\<close>

text \<open>
  A JavaScript string is a sequence of 16-bit code units, and \<open>split\<close>, \<open>match\<close>,
  \<open>slice\<close> and \<open>decodeURIComponent\<close> all count code units. The model keeps a string as
  the list of its code units; \<open>str\<close> turns an ASCII literal into that list.
\<close>

type_synonym jsstring = "nat list"

definition str :: "string \<Rightarrow> jsstring" where
  "str s = map of_char s"

text \<open>The values a property of the token object holds: a string, or \<open>undefined\<close>.\<close>

datatype jsvalue = Undefined | Str jsstring

text \<open>The exceptions of the program: the \<open>URIError\<close> of \<open>decodeURIComponent\<close>, a
  \<open>TypeError\<close> (the URI parser's, or a method call on a value that lacks it) and the
  rejection of a call to the music-service web API.\<close>

datatype exn = URIError | TypeError | WebapiError

text \<open>\<open>!!v\<close>: \<open>undefined\<close> and the empty string are falsy.\<close>

definition truthy :: "jsvalue \<Rightarrow> bool" where
  "truthy v = (case v of Undefined \<Rightarrow> False | Str s \<Rightarrow> s \<noteq> [])"

text \<open>\<open>ToString\<close>, applied by \<open>decodeURIComponent\<close> to its argument.\<close>

definition to_string :: "jsvalue \<Rightarrow> jsstring" where
  "to_string v = (case v of Undefined \<Rightarrow> str ''undefined'' | Str s \<Rightarrow> s)"

text \<open>
  \<open>s.split(sep)\<close> for a separator of one code unit: the pieces between the separators,
  in order; never an empty array (the empty string gives one empty piece).
\<close>

fun js_split :: "nat \<Rightarrow> jsstring \<Rightarrow> jsstring list" where
  "js_split sep [] = [[]]"
| "js_split sep (c # cs) =
     (if c = sep then [] # js_split sep cs
      else (case js_split sep cs of
              p # ps \<Rightarrow> (c # p) # ps
            | [] \<Rightarrow> [[c]]))"

text \<open>\<open>s.startsWith(p)\<close>, used to read the literal parts of the regular expression.\<close>

definition startsWith :: "jsstring \<Rightarrow> jsstring \<Rightarrow> bool" where
  "startsWith p s = (take (length p) s = p)"


section \<open>The payload normalizer and the validator\<close>

text \<open>
  \<open>req.body\<close> is a string (a form body that was not parsed) or an object of string
  fields (a body the framework parsed).
\<close>

datatype payload = PString jsstring | PObject "jsstring \<rightharpoonup> jsvalue"

text \<open>
  The reducer of \<open>parseSlackWebhookPayload\<close>:
  \<^verbatim>\<open>const [key, value] = cur.split("="); return { ...prev, [key]: value };\<close>
  The destructuring takes the first two pieces of the split and drops the others; a
  missing second piece is \<open>undefined\<close>. (\<open>split\<close> never returns an empty array; were
  it empty, the key would be \<open>undefined\<close>, which a computed property name turns into
  the string "undefined".)
\<close>

definition reducer :: "(jsstring \<rightharpoonup> jsvalue) \<Rightarrow> jsstring \<Rightarrow> (jsstring \<rightharpoonup> jsvalue)" where
  "reducer prev cur =
     (case js_split 61 cur of
        [] \<Rightarrow> prev(str ''undefined'' \<mapsto> Undefined)
      | [key] \<Rightarrow> prev(key \<mapsto> Undefined)
      | key # v # _ \<Rightarrow> prev(key \<mapsto> Str v))"

text \<open>\<open>src/pages/api/dj.ts\<close>: the payload string is always split (38 is \<open>&\<close>, 61 is \<open>=\<close>).\<close>

definition parseSlackWebhookPayload_dj :: "jsstring \<Rightarrow> (jsstring \<rightharpoonup> jsvalue)" where
  "parseSlackWebhookPayload_dj payload = foldl reducer Map.empty (js_split 38 payload)"

text \<open>
  \<open>src/unnamed/part_000\<close>: the same reduction behind the \<open>isLocalDevelopment\<close> flag;
  without the flag the payload is returned as it came. With the flag, a payload that is
  not a string has no \<open>split\<close> method and the call raises a \<open>TypeError\<close>.
\<close>

definition parseSlackWebhookPayload :: "payload \<Rightarrow> bool \<Rightarrow> exn + payload" where
  "parseSlackWebhookPayload payload isLocalDevelopment =
     (if isLocalDevelopment then
        (case payload of
           PString s \<Rightarrow> Inr (PObject (foldl reducer Map.empty (js_split 38 s)))
         | PObject m \<Rightarrow> Inl TypeError)
      else Inr payload)"

text \<open>
  The specification's reading of one pair, for comparison with \<open>reducer\<close>: the pair is
  split at its first \<open>=\<close> only, the value being everything after it.
\<close>

definition split_at_first_eq :: "jsstring \<Rightarrow> jsstring \<times> jsvalue" where
  "split_at_first_eq cur =
     (takeWhile (\<lambda>c. c \<noteq> 61) cur,
      if 61 \<in> set cur then Str (tl (dropWhile (\<lambda>c. c \<noteq> 61) cur)) else Undefined)"

text \<open>What the reducer stores for one pair: the first piece, and the second if there is one.\<close>

definition key_of :: "jsstring \<Rightarrow> jsstring" where
  "key_of cur = takeWhile (\<lambda>c. c \<noteq> 61) cur"

definition value_of :: "jsstring \<Rightarrow> jsvalue" where
  "value_of cur =
     (if 61 \<in> set cur
      then Str (takeWhile (\<lambda>c. c \<noteq> 61) (tl (dropWhile (\<lambda>c. c \<noteq> 61) cur)))
      else Undefined)"

text \<open>\<open>payload[key]\<close>: a property of the object, \<open>undefined\<close> when it is absent; a string
  has none of the three properties the validator reads.\<close>

definition get_property :: "payload \<Rightarrow> jsstring \<Rightarrow> jsvalue" where
  "get_property payload key =
     (case payload of
        PString s \<Rightarrow> Undefined
      | PObject m \<Rightarrow> (case m key of None \<Rightarrow> Undefined | Some v \<Rightarrow> v))"

definition MUST_HAVE_KEYS :: "jsstring list" where
  "MUST_HAVE_KEYS = [str ''token'', str ''channel_id'', str ''text'']"

definition isValidSlackWebhookPayload :: "payload \<Rightarrow> bool" where
  "isValidSlackWebhookPayload payload =
     list_all (\<lambda>key. truthy (get_property payload key)) MUST_HAVE_KEYS"


section \<open>The track reference extractor\<close>

subsection \<open>decodeURIComponent\<close>

text \<open>
  The \<open>Decode\<close> operation of ECMAScript with an empty reserved set. A code unit other
  than \<open>%\<close> (37) is copied. \<open>%\<close> must be followed by two hexadecimal digits, which give
  an octet. An octet below 128 is the code unit itself. Otherwise the octet starts a
  UTF-8 sequence of 2, 3 or 4 octets, each further one written \<open>%XX\<close> with its two top
  bits \<open>10\<close>; the sequence must be the shortest encoding of a code point that is no
  surrogate and at most \<open>0x10FFFF\<close>, and the code point is appended as one code unit or
  as a surrogate pair. Everything else raises \<open>URIError\<close>.
\<close>

definition hex_digit :: "nat \<Rightarrow> nat option" where
  "hex_digit c =
     (if 48 \<le> c \<and> c \<le> 57 then Some (c - 48)
      else if 65 \<le> c \<and> c \<le> 70 then Some (c - 55)
      else if 97 \<le> c \<and> c \<le> 102 then Some (c - 87)
      else None)"

definition octet :: "nat \<Rightarrow> nat \<Rightarrow> nat option" where
  "octet h1 h2 =
     (case hex_digit h1 of
        None \<Rightarrow> None
      | Some a \<Rightarrow> (case hex_digit h2 of None \<Rightarrow> None | Some b \<Rightarrow> Some (16 * a + b)))"

text \<open>The number of octets of the sequence a leading octet (at least 128) announces.\<close>

definition sequence_length :: "nat \<Rightarrow> nat option" where
  "sequence_length B =
     (if 192 \<le> B \<and> B < 224 then Some 2
      else if 224 \<le> B \<and> B < 240 then Some 3
      else if 240 \<le> B \<and> B < 248 then Some 4
      else None)"

text \<open>Reads \<open>j\<close> continuation octets, each written \<open>%XX\<close>, from the front of a string.\<close>

fun continuation_octets :: "nat \<Rightarrow> jsstring \<Rightarrow> nat list option" where
  "continuation_octets 0 s = Some []"
| "continuation_octets (Suc j) (p # h1 # h2 # rest) =
     (if p \<noteq> 37 then None
      else (case octet h1 h2 of
              None \<Rightarrow> None
            | Some B \<Rightarrow>
                if B div 64 \<noteq> 2 then None
                else (case continuation_octets j rest of
                        None \<Rightarrow> None
                      | Some bs \<Rightarrow> Some (B # bs))))"
| "continuation_octets (Suc j) s = None"

definition code_point :: "nat \<Rightarrow> nat \<Rightarrow> nat list \<Rightarrow> nat option" where
  "code_point n B bs =
     (let V = foldl (\<lambda>v b. v * 64 + b mod 64) (B mod 2 ^ (7 - n)) bs
      in if n = 2 \<and> V < 128 then None
         else if n = 3 \<and> (V < 2048 \<or> (55296 \<le> V \<and> V \<le> 57343)) then None
         else if n = 4 \<and> (V < 65536 \<or> 1114111 < V) then None
         else Some V)"

definition utf16 :: "nat \<Rightarrow> jsstring" where
  "utf16 V =
     (if V < 65536 then [V]
      else [(V - 65536) div 1024 mod 1024 + 55296, (V - 65536) mod 1024 + 56320])"

fun decodeURIComponent :: "jsstring \<Rightarrow> exn + jsstring" where
  "decodeURIComponent [] = Inr []"
| "decodeURIComponent (c # cs) =
     (if c \<noteq> 37 then
        (case decodeURIComponent cs of Inl e \<Rightarrow> Inl e | Inr R \<Rightarrow> Inr (c # R))
      else
        (case cs of
           h1 # h2 # rest \<Rightarrow>
             (case octet h1 h2 of
                None \<Rightarrow> Inl URIError
              | Some B \<Rightarrow>
                  if B < 128 then
                    (case decodeURIComponent rest of Inl e \<Rightarrow> Inl e | Inr R \<Rightarrow> Inr (B # R))
                  else
                    (case sequence_length B of
                       None \<Rightarrow> Inl URIError
                     | Some n \<Rightarrow>
                         (case continuation_octets (n - 1) rest of
                            None \<Rightarrow> Inl URIError
                          | Some bs \<Rightarrow>
                              (case code_point n B bs of
                                 None \<Rightarrow> Inl URIError
                               | Some V \<Rightarrow>
                                   (case decodeURIComponent (drop (3 * (n - 1)) rest) of
                                      Inl e \<Rightarrow> Inl e
                                    | Inr R \<Rightarrow> Inr (utf16 V @ R))))))
         | _ \<Rightarrow> Inl URIError))"

subsection \<open>The regular expression\<close>

text \<open>
  \<open>s.match(URL_REGEX)\<close> for \<^verbatim>\<open>/(https?:\/\/[^ ]*)/\<close>: the leftmost position at which
  \<open>http://\<close> or \<open>https://\<close> starts, followed by the longest run of code units other
  than the space (32); a line break is no space and belongs to the run. The result is
  \<open>null\<close> (\<open>None\<close>) or the array of the whole match and of group 1, here a pair: the
  group spans the whole expression, so both are the same string.
\<close>

fun URL_REGEX_match :: "jsstring \<Rightarrow> (jsstring \<times> jsstring) option" where
  "URL_REGEX_match [] = None"
| "URL_REGEX_match (c # cs) =
     (if startsWith (str ''https://'') (c # cs) then
        (let m = str ''https://'' @ takeWhile (\<lambda>x. x \<noteq> 32) (drop 8 (c # cs)) in Some (m, m))
      else if startsWith (str ''http://'') (c # cs) then
        (let m = str ''http://'' @ takeWhile (\<lambda>x. x \<noteq> 32) (drop 7 (c # cs)) in Some (m, m))
      else URL_REGEX_match cs)"

text \<open>Whether a string begins with one of the two literal heads of the expression.\<close>

definition starts_url :: "jsstring \<Rightarrow> bool" where
  "starts_url s = (startsWith (str ''https://'') s \<or> startsWith (str ''http://'') s)"

subsection \<open>getSpotifyURI\<close>

text \<open>
  What \<open>spotifyUri.parse\<close> returns, as far as the program reads it: the resource type
  and the canonical URI that \<open>toURI()\<close> gives. The parser belongs to the package
  \<open>spotify-uri\<close>, which is not part of the repository: \<open>getSpotifyURI\<close> takes it as
  a parameter, a function that returns the parsed resource or raises.
\<close>

record ParsedSpotifyUri =
  type :: jsstring
  toURI :: jsstring

text \<open>
  \<open>getSpotifyURI\<close> is the same function in both source files. The result is the
  returned string, \<open>None\<close> for \<open>undefined\<close>, or the exception that leaves the function:
  neither \<open>decodeURIComponent\<close> nor \<open>spotifyUri.parse\<close> is called inside a \<open>try\<close>.
  \<open>slice(0, -1)\<close> drops the last code unit (\<open>butlast\<close>); \<open>textTokens.length > 0\<close> holds
  for every match; \<open>if (spotifyURL)\<close> is false for \<open>undefined\<close> and for the empty string.
  The diagnostic \<open>console.log\<close> of the function is not modelled.
\<close>

definition getSpotifyURI ::
  "(jsstring \<Rightarrow> exn + ParsedSpotifyUri) \<Rightarrow> jsstring \<Rightarrow> exn + jsstring option" where
  "getSpotifyURI parse text =
     (case decodeURIComponent text of
        Inl e \<Rightarrow> Inl e
      | Inr decoded \<Rightarrow>
          (let textTokens = URL_REGEX_match decoded;
               spotifyURL = (case textTokens of
                               None \<Rightarrow> None
                             | Some (whole, group1) \<Rightarrow> Some (butlast group1))
           in (case spotifyURL of
                 None \<Rightarrow> Inr None
               | Some url \<Rightarrow>
                   if url = [] then Inr (Some url)
                   else (case parse url of
                           Inl e \<Rightarrow> Inl e
                         | Inr parsedSpotifyURL \<Rightarrow>
                             if type parsedSpotifyURL = str ''track''
                             then Inr (Some (toURI parsedSpotifyURL))
                             else Inr (Some url)))))"

text \<open>
  A reference parser to run \<open>getSpotifyURI\<close> on concrete texts. It covers the links of
  the shape \<open>http(s)://host/<type>/<id>\<close>, with an optional query or fragment, for the
  resource types the package knows: the type is the first path segment, the identifier
  the second, and \<open>toURI()\<close> is \<open>spotify:<type>:<id>\<close>. A link with no resource
  type makes the package raise a \<open>TypeError\<close>, and so does this parser. It is not the
  package: it raises on inputs the package reads (longer paths and paths that end in a
  slash, \<open>user\<close>, embed and search links, \<open>spotify:\<close> URIs), it does not percent-escape
  the identifier, and it looks for the path before it cuts the query off. It is run
  below only on links of the covered shape with a plain identifier, and on a link that
  has no path segment at all; every statement about all texts takes the parser as a
  parameter. (47 is \<open>/\<close>, 63 \<open>?\<close>, 35 \<open>#\<close>.)
\<close>

definition resource_types :: "jsstring list" where
  "resource_types =
     [str ''artist'', str ''album'', str ''track'', str ''episode'', str ''show'',
      str ''playlist'']"

definition spotifyUri_parse :: "jsstring \<Rightarrow> exn + ParsedSpotifyUri" where
  "spotifyUri_parse uri =
     (let after_scheme =
            (if startsWith (str ''https://'') uri then Some (drop 8 uri)
             else if startsWith (str ''http://'') uri then Some (drop 7 uri)
             else None)
      in case after_scheme of
           None \<Rightarrow> Inl TypeError
         | Some r \<Rightarrow>
             (let pathname = takeWhile (\<lambda>c. c \<noteq> 63 \<and> c \<noteq> 35) (dropWhile (\<lambda>c. c \<noteq> 47) r)
              in case js_split 47 pathname of
                   [lead, t, ident] \<Rightarrow>
                     if t \<in> set resource_types
                     then Inr \<lparr>type = t, toURI = str ''spotify:'' @ t @ str '':'' @ ident\<rparr>
                     else Inl TypeError
                 | _ \<Rightarrow> Inl TypeError))"


section \<open>The music service\<close>

text \<open>
  The web API is the capability interface of the program: refresh the token, add
  tracks, list tracks, remove tracks. The model keeps the playlists of the service, the
  clock, the calls the program issued (in the order it issued them) and the lines it
  wrote to the console. A playlist entry is the track's URI and the time it was added,
  in milliseconds since the epoch: what \<open>new Date(track.added_at).getTime()\<close> reads.
\<close>

record PlaylistTrackObject =
  track_uri :: jsstring
  added_at :: int

datatype api_call =
    RefreshAccessToken
  | AddTracksToPlaylist jsstring "jsstring list"
  | GetPlaylistTracks jsstring nat
  | RemoveTracksFromPlaylist jsstring "jsstring list"

text \<open>The console lines of the updater and the pruner (both files), by their message.\<close>

datatype console_line =
    Log_Added jsstring
  | Error_FailedToAdd jsstring exn
  | Log_Pruned nat jsstring
  | Log_Data
  | Log_AddedTracks
  | Log_SomethingWentWrong exn

record world =
  playlists :: "jsstring \<Rightarrow> PlaylistTrackObject list"
  clock :: int
  calls :: "api_call list"
  console :: "console_line list"

text \<open>
  Whether each call of one invocation is rejected, and with what: the service decides.
  The add calls are numbered in the order the program issues them.
\<close>

record outcomes =
  refreshAccessToken_rejects :: "exn option"
  addTracksToPlaylist_rejects :: "nat \<Rightarrow> exn option"
  getPlaylistTracks_rejects :: "exn option"
  removeTracksFromPlaylist_rejects :: "exn option"

text \<open>The configuration read from \<open>process.env\<close>.\<close>

record env =
  SPOTIFY_ARCHIVE_PLAYLIST_ID :: jsstring
  SPOTIFY_MONTHLY_PLAYLIST_ID :: jsstring
  SPOTIFY_PLAYLIST_ID :: jsstring
  NODE_ENV_is_development :: bool

text \<open>
  The calls. Each one is recorded when it is issued. A fulfilled add appends the tracks
  to the playlist, stamped with the clock; a rejected one changes nothing. The list call
  returns the first \<open>limit\<close> entries. A fulfilled remove deletes every entry of the
  playlist whose URI is among those given, as the web API does when a track is named by
  its URI alone.
\<close>

definition addTracksToPlaylist ::
  "outcomes \<Rightarrow> nat \<Rightarrow> jsstring \<Rightarrow> jsstring list \<Rightarrow> world \<Rightarrow> exn option \<times> world" where
  "addTracksToPlaylist api n playlistID tracks w =
     (let w1 = w\<lparr>calls := calls w @ [AddTracksToPlaylist playlistID tracks]\<rparr>
      in case addTracksToPlaylist_rejects api n of
           Some e \<Rightarrow> (Some e, w1)
         | None \<Rightarrow>
             (None,
              w1\<lparr>playlists := (playlists w1)
                    (playlistID := playlists w1 playlistID @
                       map (\<lambda>u. \<lparr>track_uri = u, added_at = clock w1\<rparr>) tracks)\<rparr>))"

definition getPlaylistTracks ::
  "outcomes \<Rightarrow> jsstring \<Rightarrow> nat \<Rightarrow> world \<Rightarrow> (exn + PlaylistTrackObject list) \<times> world" where
  "getPlaylistTracks api playlistID limit w =
     (let w1 = w\<lparr>calls := calls w @ [GetPlaylistTracks playlistID limit]\<rparr>
      in case getPlaylistTracks_rejects api of
           Some e \<Rightarrow> (Inl e, w1)
         | None \<Rightarrow> (Inr (take limit (playlists w1 playlistID)), w1))"

definition removeTracksFromPlaylist ::
  "outcomes \<Rightarrow> jsstring \<Rightarrow> jsstring list \<Rightarrow> world \<Rightarrow> exn option \<times> world" where
  "removeTracksFromPlaylist api playlistID tracks w =
     (let w1 = w\<lparr>calls := calls w @ [RemoveTracksFromPlaylist playlistID tracks]\<rparr>
      in case removeTracksFromPlaylist_rejects api of
           Some e \<Rightarrow> (Some e, w1)
         | None \<Rightarrow>
             (None,
              w1\<lparr>playlists := (playlists w1)
                    (playlistID := filter (\<lambda>entry. track_uri entry \<notin> set tracks)
                                     (playlists w1 playlistID))\<rparr>))"


section \<open>The playlist pruner\<close>

text \<open>
  \<^verbatim>\<open>diffInTime = TODAY.getTime() - new Date(track.added_at).getTime();\<close>
  \<^verbatim>\<open>diffInDays = diffInTime / (1000 * 3600 * 24); return diffInDays >= ageToPruneInDays;\<close>
  Times are whole milliseconds and the window is a whole number of days (30 at the only
  call), and the quotient is taken in the rationals. The program divides in double
  precision, and the exact quotient stands for it only on a bounded range: times of the
  \<open>Date\<close> range (at most 8640000000000000 ms from the epoch) and a window of 0 or more
  and less than 10^8 days. There a quotient that is at least the window stays so when
  it is rounded, and one below the window is below it by 1/86400000 of a day or more,
  which is more than half the gap between neighbouring doubles under 2^27; so \<open>>=\<close>
  answers as the exact comparison does. From windows of about 1.3 * 10^8 days on the
  rounded quotient can reach a window that the exact one misses, and the definition no
  longer describes the program: the statements about the selection below carry the
  bounds, or fix the window at 30.
\<close>

definition diffInDays :: "int \<Rightarrow> PlaylistTrackObject \<Rightarrow> rat" where
  "diffInDays TODAY track = of_int (TODAY - added_at track) / (1000 * 3600 * 24)"

definition tracksToRemove ::
  "int \<Rightarrow> int \<Rightarrow> PlaylistTrackObject list \<Rightarrow> PlaylistTrackObject list" where
  "tracksToRemove TODAY ageToPruneInDays items =
     filter (\<lambda>track. diffInDays TODAY track \<ge> of_int ageToPruneInDays) items"

text \<open>
  The specification's wording of the age: the difference of the two times in seconds,
  divided by the seconds of a day.
\<close>

definition age_in_days :: "int \<Rightarrow> int \<Rightarrow> rat" where
  "age_in_days now added = (of_int (now - added) / 1000) / 86400"

text \<open>
  \<open>pruneOldTracksFromPlaylist\<close>: one page of 50 entries is listed, the entries of that
  page that are old enough are selected, and their URIs go into one remove call. A
  rejected call raises out of the function.
\<close>

definition pruneOldTracksFromPlaylist ::
  "outcomes \<Rightarrow> jsstring \<Rightarrow> int \<Rightarrow> world \<Rightarrow> (exn + unit) \<times> world" where
  "pruneOldTracksFromPlaylist api playlistID ageToPruneInDays w =
     (let TODAY = clock w
      in case getPlaylistTracks api playlistID 50 w of
           (Inl e, w1) \<Rightarrow> (Inl e, w1)
         | (Inr items, w1) \<Rightarrow>
             (let tracksToRemoveURIs = map track_uri (tracksToRemove TODAY ageToPruneInDays items)
              in case removeTracksFromPlaylist api playlistID tracksToRemoveURIs w1 of
                   (Some e, w2) \<Rightarrow> (Inl e, w2)
                 | (None, w2) \<Rightarrow>
                     (Inr (),
                      w2\<lparr>console := console w2 @
                            [Log_Pruned (length tracksToRemoveURIs) playlistID]\<rparr>)))"


section \<open>The playlist updater\<close>

text \<open>
  \<open>src/unnamed/part_000\<close>, the add step inside the \<open>try\<close>: the two adds are issued,
  archive first, and \<open>Promise.allSettled\<close> waits for both and never rejects. The function
  returns how the two promises settled (\<open>None\<close>: fulfilled) and the world after both.
  The two requests are in flight together; each changes its own playlist by appending,
  so the world after both does not depend on which settles first.
\<close>

definition add_to_archive_and_monthly ::
  "env \<Rightarrow> outcomes \<Rightarrow> jsstring \<Rightarrow> world \<Rightarrow> (exn option \<times> exn option) \<times> world" where
  "add_to_archive_and_monthly cfg api spotifyURL w =
     (let (archive_settled, w1) =
            addTracksToPlaylist api 0 (SPOTIFY_ARCHIVE_PLAYLIST_ID cfg) [spotifyURL] w;
          (monthly_settled, w2) =
            addTracksToPlaylist api 1 (SPOTIFY_MONTHLY_PLAYLIST_ID cfg) [spotifyURL] w1
      in ((archive_settled, monthly_settled), w2))"

text \<open>
  \<open>addTrackToPlaylist\<close> of \<open>src/unnamed/part_000\<close>. The refresh is awaited outside
  the \<open>try\<close>: its rejection leaves the function. Inside the \<open>try\<close> come the add step,
  whose results are dropped, and the pruning of the monthly playlist with a window of 30
  days; an exception of the pruner is caught and written to the console. The function
  returns \<open>{}\<close>.
\<close>

definition addTrackToPlaylist ::
  "env \<Rightarrow> outcomes \<Rightarrow> jsstring \<Rightarrow> world \<Rightarrow> (exn + unit) \<times> world" where
  "addTrackToPlaylist cfg api spotifyURL w =
     (let w1 = w\<lparr>calls := calls w @ [RefreshAccessToken]\<rparr>
      in case refreshAccessToken_rejects api of
           Some e \<Rightarrow> (Inl e, w1)
         | None \<Rightarrow>
             (let (settled, w3) = add_to_archive_and_monthly cfg api spotifyURL w1
              in case pruneOldTracksFromPlaylist api (SPOTIFY_MONTHLY_PLAYLIST_ID cfg) 30 w3 of
                   (Inl e, w4) \<Rightarrow>
                     (Inr (), w4\<lparr>console := console w4 @ [Error_FailedToAdd spotifyURL e]\<rparr>)
                 | (Inr u, w4) \<Rightarrow>
                     (Inr (), w4\<lparr>console := console w4 @ [Log_Added spotifyURL]\<rparr>)))"

text \<open>
  \<open>src/pages/api/dj.ts\<close>. The promise chain is not awaited: the function returns
  \<open>{}\<close> at once, whatever the chain does later. The world returned is the one in which
  the chain has settled: the refresh, then the add to the single playlist, and a
  \<open>catch\<close> at the end of the chain that writes any rejection to the console.
\<close>

definition addTrackToPlaylist_dj ::
  "env \<Rightarrow> outcomes \<Rightarrow> jsstring \<Rightarrow> world \<Rightarrow> (exn + unit) \<times> world" where
  "addTrackToPlaylist_dj cfg api spotifyURL w =
     (let w1 = w\<lparr>calls := calls w @ [RefreshAccessToken]\<rparr>
      in case refreshAccessToken_rejects api of
           Some e \<Rightarrow> (Inr (), w1\<lparr>console := console w1 @ [Log_SomethingWentWrong e]\<rparr>)
         | None \<Rightarrow>
             (case addTracksToPlaylist api 0 (SPOTIFY_PLAYLIST_ID cfg) [spotifyURL]
                     (w1\<lparr>console := console w1 @ [Log_Data]\<rparr>) of
                (Some e, w2) \<Rightarrow>
                  (Inr (), w2\<lparr>console := console w2 @ [Log_SomethingWentWrong e]\<rparr>)
              | (None, w2) \<Rightarrow>
                  (Inr (), w2\<lparr>console := console w2 @ [Log_AddedTracks]\<rparr>)))"


section \<open>The request handler\<close>

text \<open>
  \<open>handler\<close> of \<open>src/unnamed/part_000\<close>. The result is the exception that leaves the
  handler, if any, the status codes of the calls \<open>res.status(n).end()\<close> in the order
  they were made, and the world. After the \<open>catch\<close> that answers 500 there is no
  \<open>return\<close>: the handler goes on to \<open>res.status(200).end()\<close>. A response is sent by
  its first \<open>end()\<close>; the later call finds it finished and changes nothing, so the
  status the client receives is the first of the list.
\<close>

definition handler ::
  "(jsstring \<Rightarrow> exn + ParsedSpotifyUri) \<Rightarrow> env \<Rightarrow> outcomes \<Rightarrow> payload \<Rightarrow> world
     \<Rightarrow> (exn + unit) \<times> nat list \<times> world" where
  "handler parse cfg api body w =
     (case parseSlackWebhookPayload body (NODE_ENV_is_development cfg) of
        Inl e \<Rightarrow> (Inl e, [], w)
      | Inr tokens \<Rightarrow>
          if \<not> isValidSlackWebhookPayload tokens then (Inr (), [400], w)
          else
            (case getSpotifyURI parse (to_string (get_property tokens (str ''text''))) of
               Inl e \<Rightarrow> (Inl e, [], w)
             | Inr None \<Rightarrow> (Inr (), [400], w)
             | Inr (Some spotifyURL) \<Rightarrow>
                 (case addTrackToPlaylist cfg api spotifyURL w of
                    (Inl err, w') \<Rightarrow> (Inr (), [500, 200], w')
                  | (Inr json, w') \<Rightarrow> (Inr (), [200], w'))))"

definition response_status :: "(exn + unit) \<times> nat list \<times> world \<Rightarrow> nat option" where
  "response_status r = (case fst (snd r) of [] \<Rightarrow> None | status # later \<Rightarrow> Some status)"


section \<open>Concrete configurations\<close>

text \<open>
  A configuration, service outcomes and worlds on which the functions are run below:
  every call fulfilled; the refresh rejected; the add to the monthly playlist rejected;
  both adds rejected; and a monthly playlist of 51 entries with different URIs, all
  added at time 0, listed 30 days later.
\<close>

definition example_env :: env where
  "example_env =
     \<lparr>SPOTIFY_ARCHIVE_PLAYLIST_ID = str ''archive'',
      SPOTIFY_MONTHLY_PLAYLIST_ID = str ''monthly'',
      SPOTIFY_PLAYLIST_ID = str ''playlist'',
      NODE_ENV_is_development = True\<rparr>"

definition all_fulfilled :: outcomes where
  "all_fulfilled =
     \<lparr>refreshAccessToken_rejects = None,
      addTracksToPlaylist_rejects = (\<lambda>n. None),
      getPlaylistTracks_rejects = None,
      removeTracksFromPlaylist_rejects = None\<rparr>"

definition refresh_rejected :: outcomes where
  "refresh_rejected = all_fulfilled\<lparr>refreshAccessToken_rejects := Some WebapiError\<rparr>"

definition monthly_add_rejected :: outcomes where
  "monthly_add_rejected =
     all_fulfilled\<lparr>addTracksToPlaylist_rejects := (\<lambda>n. if n = 1 then Some WebapiError else None)\<rparr>"

definition adds_rejected :: outcomes where
  "adds_rejected = all_fulfilled\<lparr>addTracksToPlaylist_rejects := (\<lambda>n. Some WebapiError)\<rparr>"

definition empty_world :: world where
  "empty_world = \<lparr>playlists = (\<lambda>playlistID. []), clock = 1649115407399, calls = [], console = []\<rparr>"

definition world_51 :: world where
  "world_51 =
     \<lparr>playlists = (\<lambda>playlistID. map (\<lambda>i. \<lparr>track_uri = [i], added_at = 0\<rparr>) [0..<51]),
      clock = 30 * 86400000, calls = [], console = []\<rparr>"

text \<open>
  Two monthly playlists that fit on one page: one with the same track twice, added 30
  days and 29 days before the clock; one with three different tracks, added 30 days, 29
  days and 100 days before the clock.
\<close>

definition world_duplicate :: world where
  "world_duplicate =
     \<lparr>playlists = (\<lambda>playlistID.
          [\<lparr>track_uri = str ''spotify:track:X'', added_at = 0\<rparr>,
           \<lparr>track_uri = str ''spotify:track:X'', added_at = 86400000\<rparr>]),
      clock = 30 * 86400000, calls = [], console = []\<rparr>"

definition world_three :: world where
  "world_three =
     \<lparr>playlists = (\<lambda>playlistID.
          [\<lparr>track_uri = str ''a'', added_at = 8640000000 - 30 * 86400000\<rparr>,
           \<lparr>track_uri = str ''b'', added_at = 8640000000 - (30 - 1) * 86400000\<rparr>,
           \<lparr>track_uri = str ''c'', added_at = 0\<rparr>]),
      clock = 8640000000, calls = [], console = []\<rparr>"

definition example_payload :: jsstring where
  "example_payload =
     str ''token=T&channel_id=C&text=%3Chttps%3A%2F%2Fopen.spotify.com%2Ftrack%2F6J1Qcreg3a9hlJuvJCvjl5%3Fsi%3D2vEISP1TS0iilwluZTeDSQ%3E''"


section \<open>Lemmas on the normalizer\<close>

lemma js_split_nonempty: "js_split sep s \<noteq> []"
  by (induction s) (auto split: list.splits)

lemma js_split_unfold:
  "js_split sep s =
     (if sep \<in> set s
      then takeWhile (\<lambda>c. c \<noteq> sep) s # js_split sep (tl (dropWhile (\<lambda>c. c \<noteq> sep) s))
      else [s])"
  by (induction s) (auto split: list.splits)

lemma js_split_pieces: "p \<in> set (js_split sep s) \<Longrightarrow> sep \<notin> set p"
  by (induction s arbitrary: p) (auto split: list.splits if_splits)

lemma js_split_join: "concat (map ((#) sep) (js_split sep s)) = sep # s"
  by (induction s) (auto split: list.splits)

lemma js_split_hd: "\<exists>ps. js_split sep s = takeWhile (\<lambda>c. c \<noteq> sep) s # ps"
  by (induction s) auto

lemma reducer_eq: "reducer prev cur = prev(key_of cur \<mapsto> value_of cur)"
proof (cases "61 \<in> set cur")
  case False
  then have a: "js_split 61 cur = [cur]" by (subst js_split_unfold) simp
  from False have b: "takeWhile (\<lambda>c. c \<noteq> 61) cur = cur"
    by (auto simp: takeWhile_eq_all_conv)
  show ?thesis using False by (simp add: reducer_def key_of_def value_of_def a b)
next
  case True
  define rest where "rest = tl (dropWhile (\<lambda>c. c \<noteq> 61) cur)"
  have a: "js_split 61 cur = takeWhile (\<lambda>c. c \<noteq> 61) cur # js_split 61 rest"
    using True unfolding rest_def by (subst js_split_unfold) simp
  obtain ps where b: "js_split 61 rest = takeWhile (\<lambda>c. c \<noteq> 61) rest # ps"
    using js_split_hd by blast
  show ?thesis
    using True by (simp add: reducer_def key_of_def value_of_def a b rest_def[symmetric])
qed

lemma reducer_fun: "reducer = (\<lambda>prev cur. prev(key_of cur \<mapsto> value_of cur))"
  by (intro ext) (simp only: reducer_eq)

lemma foldl_upd_map_of:
  "foldl (\<lambda>prev cur. prev(kf cur \<mapsto> vf cur)) m pairs =
     m ++ map_of (rev (map (\<lambda>cur. (kf cur, vf cur)) pairs))"
  by (induction pairs arbitrary: m) (auto simp: map_add_def fun_eq_iff split: option.splits)

lemma foldl_reducer:
  "foldl reducer m pairs = m ++ map_of (rev (map (\<lambda>cur. (key_of cur, value_of cur)) pairs))"
  unfolding reducer_fun by (rule foldl_upd_map_of)

lemma dom_foldl_reducer: "dom (foldl reducer m pairs) = dom m \<union> key_of ` set pairs"
  unfolding foldl_reducer by (auto simp: dom_map_of_conv_image_fst image_iff)

lemma foldl_reducer_last:
  assumes "key_of cur \<notin> key_of ` set after"
  shows "foldl reducer m (before @ cur # after) (key_of cur) = Some (value_of cur)"
proof -
  have "map_of (rev (map (\<lambda>c. (key_of c, value_of c)) after)) (key_of cur) = None"
    using assms by (auto simp: map_of_eq_None_iff image_iff)
  then show ?thesis
    unfolding foldl_reducer by (simp add: map_add_def split: option.splits)
qed


section \<open>Lemmas on the extractor\<close>

lemma prefix_run:
  assumes "startsWith p s" and "32 \<notin> set p" and "length p = n"
  shows "p @ takeWhile (\<lambda>x. x \<noteq> 32) (drop n s) = takeWhile (\<lambda>x. x \<noteq> (32::nat)) s"
proof -
  from assms(1,3) have "s = p @ drop n s"
    unfolding startsWith_def by (metis append_take_drop_id)
  then have "takeWhile (\<lambda>x. x \<noteq> 32) s = takeWhile (\<lambda>x. x \<noteq> 32) (p @ drop n s)" by simp
  also have "\<dots> = p @ takeWhile (\<lambda>x. x \<noteq> 32) (drop n s)"
    using assms(2) by (intro takeWhile_append2) auto
  finally show ?thesis by simp
qed

lemma startsWith_run:
  assumes "startsWith p s" and "32 \<notin> set p"
  shows "startsWith p (takeWhile (\<lambda>x. x \<noteq> (32::nat)) s)"
  using prefix_run[OF assms refl, symmetric] by (simp add: startsWith_def)

lemma starts_url_run: "starts_url s \<Longrightarrow> starts_url (takeWhile (\<lambda>x. x \<noteq> 32) s)"
  unfolding starts_url_def by (auto intro!: startsWith_run simp: str_def)

lemma URL_REGEX_match_Cons:
  "URL_REGEX_match (c # cs) =
     (if starts_url (c # cs)
      then Some (takeWhile (\<lambda>x. x \<noteq> 32) (c # cs), takeWhile (\<lambda>x. x \<noteq> 32) (c # cs))
      else URL_REGEX_match cs)"
proof -
  have a: "startsWith (str ''https://'') (c # cs) \<Longrightarrow>
      str ''https://'' @ takeWhile (\<lambda>x. x \<noteq> 32) (drop 8 (c # cs)) = takeWhile (\<lambda>x. x \<noteq> 32) (c # cs)"
    by (erule prefix_run) (simp_all add: str_def)
  have b: "startsWith (str ''http://'') (c # cs) \<Longrightarrow>
      str ''http://'' @ takeWhile (\<lambda>x. x \<noteq> 32) (drop 7 (c # cs)) = takeWhile (\<lambda>x. x \<noteq> 32) (c # cs)"
    by (erule prefix_run) (simp_all add: str_def)
  show ?thesis
    unfolding URL_REGEX_match.simps starts_url_def Let_def using a b by presburger
qed

lemma URL_REGEX_match_None: "URL_REGEX_match s = None \<longleftrightarrow> (\<forall>i<length s. \<not> starts_url (drop i s))"
proof (induction s)
  case Nil
  then show ?case by simp
next
  case (Cons c cs)
  have "(\<forall>i<length (c # cs). \<not> starts_url (drop i (c # cs))) \<longleftrightarrow>
        (\<not> starts_url (c # cs) \<and> (\<forall>i<length cs. \<not> starts_url (drop i cs)))"
    by (auto simp: less_Suc_eq_0_disj)
  with Cons show ?case by (simp add: URL_REGEX_match_Cons del: URL_REGEX_match.simps)
qed

lemma URL_REGEX_match_Some:
  assumes "URL_REGEX_match s = Some (whole, m)"
  shows "whole = m \<and>
         (\<exists>pre post. s = pre @ m @ post \<and> starts_url m \<and> 32 \<notin> set m \<and>
            (post = [] \<or> hd post = 32) \<and> (\<forall>i<length pre. \<not> starts_url (drop i s)))"
  using assms
proof (induction s)
  case Nil
  then show ?case by simp
next
  case (Cons c cs)
  show ?case
  proof (cases "starts_url (c # cs)")
    case True
    let ?P = "\<lambda>x. x \<noteq> (32::nat)"
    from True Cons.prems have m: "m = takeWhile ?P (c # cs)" and w: "whole = m"
      by (auto simp: URL_REGEX_match_Cons simp del: URL_REGEX_match.simps takeWhile.simps)
    have dec: "c # cs = [] @ m @ dropWhile ?P (c # cs)" unfolding m by simp
    have nosp: "32 \<notin> set m" unfolding m by (auto dest: set_takeWhileD)
    have post: "dropWhile ?P (c # cs) = [] \<or> hd (dropWhile ?P (c # cs)) = 32"
      using hd_dropWhile[of ?P "c # cs"] by blast
    have st: "starts_url m" unfolding m using True by (rule starts_url_run)
    show ?thesis using w dec nosp post st
      by (intro conjI exI[of _ "[]"] exI[of _ "dropWhile ?P (c # cs)"]) auto
  next
    case False
    with Cons.prems have "URL_REGEX_match cs = Some (whole, m)"
      by (simp add: URL_REGEX_match_Cons del: URL_REGEX_match.simps)
    from Cons.IH[OF this] obtain pre post where
      w: "whole = m" and d: "cs = pre @ m @ post" and s: "starts_url m" and n: "32 \<notin> set m"
      and p: "post = [] \<or> hd post = 32" and e: "\<forall>i<length pre. \<not> starts_url (drop i cs)"
      by blast
    have "\<forall>i<length (c # pre). \<not> starts_url (drop i (c # cs))"
      using False e by (auto simp: less_Suc_eq_0_disj)
    then show ?thesis using w d s n p
      by (intro conjI exI[of _ "c # pre"] exI[of _ post]) auto
  qed
qed


lemma startsWith_length:
  assumes "startsWith p s"
  shows "length p \<le> length s"
proof -
  from assms have "length (take (length p) s) = length p" by (simp add: startsWith_def)
  then show ?thesis by simp
qed

lemma starts_url_length: "starts_url m \<Longrightarrow> 7 \<le> length m"
  unfolding starts_url_def by (auto dest!: startsWith_length simp: str_def)

lemma getSpotifyURI_found:
  assumes "decodeURIComponent text = Inr decoded"
    and "URL_REGEX_match decoded = Some (whole, m)"
  shows "getSpotifyURI parse text =
           (case parse (butlast m) of
              Inl e \<Rightarrow> Inl e
            | Inr p \<Rightarrow> Inr (Some (if type p = str ''track'' then toURI p else butlast m)))"
proof -
  from URL_REGEX_match_Some[OF assms(2)] have "starts_url m" by blast
  then have "7 \<le> length m" by (rule starts_url_length)
  then have "butlast m \<noteq> []" by (cases m rule: rev_cases) auto
  then show ?thesis
    using assms by (simp add: getSpotifyURI_def split: sum.splits)
qed

lemma getSpotifyURI_not_found:
  assumes "decodeURIComponent text = Inr decoded" and "URL_REGEX_match decoded = None"
  shows "getSpotifyURI parse text = Inr None"
  using assms by (simp add: getSpotifyURI_def)

lemma startsWith_append: "startsWith p s \<Longrightarrow> startsWith p (s @ t)"
  unfolding startsWith_def by (metis append_eq_conv_conj append.assoc append_take_drop_id)

lemma startsWith_stop:
  assumes "startsWith p (a @ x # rest)" and "x \<notin> set p"
  shows "startsWith p (a @ [x])"
proof (cases "length p \<le> length a")
  case True
  with assms(1) have "startsWith p a" by (simp add: startsWith_def)
  then show ?thesis by (rule startsWith_append)
next
  case False
  with assms(1) have "p = a @ take (length p - length a) (x # rest)"
    by (simp add: startsWith_def)
  moreover from False have "take (length p - length a) (x # rest) = x # take (length p - length a - 1) rest"
    by (cases "length p - length a") auto
  ultimately have "x \<in> set p" by (metis in_set_conv_decomp)
  with assms(2) show ?thesis by simp
qed

lemma starts_url_stop: "starts_url (a @ 60 # rest) \<Longrightarrow> starts_url (a @ [60])"
  unfolding starts_url_def by (auto dest!: startsWith_stop simp: str_def)

lemma URL_REGEX_match_skip:
  "URL_REGEX_match (pre @ [60]) = None \<Longrightarrow>
   URL_REGEX_match (pre @ 60 # rest) = URL_REGEX_match rest"
proof (induction pre)
  case Nil
  have "\<not> starts_url (60 # rest)" by (simp add: starts_url_def startsWith_def str_def)
  then show ?case by (simp add: URL_REGEX_match_Cons del: URL_REGEX_match.simps)
next
  case (Cons c pre)
  from Cons.prems have a: "\<not> starts_url (c # pre @ [60])" and b: "URL_REGEX_match (pre @ [60]) = None"
    by (auto simp: URL_REGEX_match_Cons simp del: URL_REGEX_match.simps split: if_splits)
  from a have "\<not> starts_url (c # pre @ 60 # rest)"
    using starts_url_stop[of "c # pre" rest] by auto
  then show ?case using Cons.IH[OF b]
    by (simp add: URL_REGEX_match_Cons del: URL_REGEX_match.simps)
qed

lemma URL_REGEX_match_bracketed:
  assumes "URL_REGEX_match (pre @ [60]) = None" and "starts_url url" and "32 \<notin> set url"
    and "post = [] \<or> hd post = 32"
  shows "URL_REGEX_match (pre @ [60] @ url @ [62] @ post) = Some (url @ [62], url @ [62])"
proof -
  from assms(2) have "7 \<le> length url" by (rule starts_url_length)
  then obtain c cs where url: "url = c # cs" by (cases url) auto
  have st: "starts_url (url @ 62 # post)"
    using assms(2) unfolding starts_url_def by (auto intro: startsWith_append)
  have "takeWhile (\<lambda>x. x \<noteq> 32) post = []"
    using assms(4) by (cases post) auto
  moreover have "takeWhile (\<lambda>x. x \<noteq> 32) (url @ 62 # post) =
      url @ takeWhile (\<lambda>x. x \<noteq> 32) (62 # post)"
    using assms(3) by (intro takeWhile_append2) auto
  ultimately have run: "takeWhile (\<lambda>x. x \<noteq> 32) (url @ 62 # post) = url @ [62]"
    by simp
  have "URL_REGEX_match (pre @ [60] @ url @ [62] @ post) = URL_REGEX_match (url @ 62 # post)"
    using URL_REGEX_match_skip[OF assms(1)] by simp
  also have "\<dots> = Some (url @ [62], url @ [62])"
    using st run unfolding url by (simp add: URL_REGEX_match_Cons del: URL_REGEX_match.simps)
  finally show ?thesis .
qed

lemma getSpotifyURI_bracketed:
  assumes "decodeURIComponent text = Inr (pre @ [60] @ url @ [62] @ post)"
    and "URL_REGEX_match (pre @ [60]) = None"
    and "starts_url url" and "32 \<notin> set url" and "post = [] \<or> hd post = 32"
    and "parse url = Inr p" and "type p = str ''track''"
  shows "getSpotifyURI parse text = Inr (Some (toURI p))"
  using getSpotifyURI_found[OF assms(1) URL_REGEX_match_bracketed[OF assms(2-5)], of parse] assms(6,7)
  by simp


section \<open>Lemmas on the pruner\<close>

lemma diffInDays_age: "diffInDays TODAY track = age_in_days TODAY (added_at track)"
  by (simp add: diffInDays_def age_in_days_def)

lemma diffInDays_ge:
  "diffInDays TODAY track \<ge> of_int w \<longleftrightarrow> TODAY - added_at track \<ge> w * 86400000"
proof -
  have "(of_int w :: rat) \<le> of_int (TODAY - added_at track) / 86400000 \<longleftrightarrow>
        (of_int (w * 86400000) :: rat) \<le> of_int (TODAY - added_at track)"
    by (simp add: pos_le_divide_eq)
  also have "\<dots> \<longleftrightarrow> w * 86400000 \<le> TODAY - added_at track"
    by (rule of_int_le_iff)
  finally show ?thesis by (simp add: diffInDays_def)
qed

lemma tracksToRemove_iff:
  "t \<in> set (tracksToRemove TODAY w items) \<longleftrightarrow>
     t \<in> set items \<and> TODAY - added_at t \<ge> w * 86400000"
  by (simp add: tracksToRemove_def diffInDays_ge)

lemma pruner_calls:
  assumes "getPlaylistTracks_rejects api = None"
  shows "calls (snd (pruneOldTracksFromPlaylist api playlistID age w)) =
           calls w @ [GetPlaylistTracks playlistID 50,
                      RemoveTracksFromPlaylist playlistID
                        (map track_uri (tracksToRemove (clock w) age (take 50 (playlists w playlistID))))]"
  using assms
  by (simp add: pruneOldTracksFromPlaylist_def getPlaylistTracks_def removeTracksFromPlaylist_def
      Let_def split: option.splits)

lemma pruner_fulfilled:
  assumes "getPlaylistTracks_rejects api = None" and "removeTracksFromPlaylist_rejects api = None"
  shows "pruneOldTracksFromPlaylist api playlistID age w =
     (let uris = map track_uri (tracksToRemove (clock w) age (take 50 (playlists w playlistID)))
      in (Inr (),
          w\<lparr>calls := calls w @ [GetPlaylistTracks playlistID 50,
                                 RemoveTracksFromPlaylist playlistID uris],
            playlists := (playlists w)
               (playlistID := filter (\<lambda>entry. track_uri entry \<notin> set uris) (playlists w playlistID)),
            console := console w @ [Log_Pruned (length uris) playlistID]\<rparr>))"
  using assms
  by (simp add: pruneOldTracksFromPlaylist_def getPlaylistTracks_def removeTracksFromPlaylist_def
      Let_def)

lemma second_selection_empty:
  assumes "length pl \<le> 50"
  shows "tracksToRemove TODAY age
           (take 50 (filter (\<lambda>entry. track_uri entry \<notin>
               set (map track_uri (tracksToRemove TODAY age (take 50 pl)))) pl)) = []"
proof -
  let ?kept = "filter (\<lambda>entry. track_uri entry \<notin> set (map track_uri (tracksToRemove TODAY age pl))) pl"
  from assms have t: "take 50 pl = pl" by simp
  have "length ?kept \<le> 50" using le_trans[OF length_filter_le assms] .
  then have k: "take 50 ?kept = ?kept" by (rule take_all)
  have "\<And>e. e \<in> set ?kept \<Longrightarrow> \<not> (TODAY - added_at e \<ge> age * 86400000)"
    by (auto simp: tracksToRemove_iff)
  then have "tracksToRemove TODAY age ?kept = []"
    unfolding tracksToRemove_def diffInDays_ge filter_empty_conv by blast
  then show ?thesis unfolding t k .
qed

lemma pruner_twice_single_page:
  assumes "getPlaylistTracks_rejects api = None" and "removeTracksFromPlaylist_rejects api = None"
    and "length (playlists w playlistID) \<le> 50"
  shows "tracksToRemove (clock (snd (pruneOldTracksFromPlaylist api playlistID age w))) age
           (take 50 (playlists (snd (pruneOldTracksFromPlaylist api playlistID age w)) playlistID)) = []"
    and "playlists (snd (pruneOldTracksFromPlaylist api playlistID age
                      (snd (pruneOldTracksFromPlaylist api playlistID age w)))) =
         playlists (snd (pruneOldTracksFromPlaylist api playlistID age w))"
    and "console (snd (pruneOldTracksFromPlaylist api playlistID age
                      (snd (pruneOldTracksFromPlaylist api playlistID age w)))) =
         console (snd (pruneOldTracksFromPlaylist api playlistID age w)) @ [Log_Pruned 0 playlistID]"
proof -
  let ?w1 = "snd (pruneOldTracksFromPlaylist api playlistID age w)"
  have sel: "tracksToRemove (clock ?w1) age (take 50 (playlists ?w1 playlistID)) = []"
    using second_selection_empty[OF assms(3), of "clock w" age]
    by (simp add: pruner_fulfilled[OF assms(1,2)] Let_def)
  show "tracksToRemove (clock ?w1) age (take 50 (playlists ?w1 playlistID)) = []" by (rule sel)
  show "playlists (snd (pruneOldTracksFromPlaylist api playlistID age ?w1)) = playlists ?w1"
    by (simp add: pruner_fulfilled[OF assms(1,2), of playlistID age ?w1] sel Let_def)
  show "console (snd (pruneOldTracksFromPlaylist api playlistID age ?w1)) =
         console ?w1 @ [Log_Pruned 0 playlistID]"
    by (simp add: pruner_fulfilled[OF assms(1,2), of playlistID age ?w1] sel Let_def)
qed

lemma age_ge:
  "of_int window \<le> age_in_days TODAY added \<longleftrightarrow> window * 86400000 \<le> TODAY - added"
proof -
  have "(of_int window :: rat) \<le> of_int (TODAY - added) / 86400000 \<longleftrightarrow>
        (of_int (window * 86400000) :: rat) \<le> of_int (TODAY - added)"
    by (simp add: pos_le_divide_eq)
  also have "\<dots> \<longleftrightarrow> window * 86400000 \<le> TODAY - added"
    by (rule of_int_le_iff)
  finally show ?thesis by (simp add: age_in_days_def)
qed

lemma age_less:
  "age_in_days TODAY added < of_int window \<longleftrightarrow> TODAY - added < window * 86400000"
  using age_ge[of window TODAY added] by (simp add: not_le[symmetric])

lemma pruner_single_page:
  assumes "getPlaylistTracks_rejects api = None" and "removeTracksFromPlaylist_rejects api = None"
    and "length (playlists w playlistID) \<le> 50"
  shows "pruneOldTracksFromPlaylist api playlistID window w =
     (Inr (),
      w\<lparr>calls := calls w @
           [GetPlaylistTracks playlistID 50,
            RemoveTracksFromPlaylist playlistID
              (map track_uri (tracksToRemove (clock w) window (playlists w playlistID)))],
        playlists := (playlists w)
           (playlistID := filter (\<lambda>entry. track_uri entry \<notin>
                track_uri ` set (tracksToRemove (clock w) window (playlists w playlistID)))
              (playlists w playlistID)),
        console := console w @
           [Log_Pruned (length (tracksToRemove (clock w) window (playlists w playlistID)))
              playlistID]\<rparr>)"
  using assms(3) by (simp add: pruner_fulfilled[OF assms(1,2)] Let_def)

lemma kept_iff:
  "entry \<in> set (filter (\<lambda>entry. track_uri entry \<notin> track_uri ` set (tracksToRemove TODAY window pl)) pl)
   \<longleftrightarrow> entry \<in> set pl \<and>
       (\<forall>other\<in>set pl. track_uri other = track_uri entry \<longrightarrow>
          age_in_days TODAY (added_at other) < of_int window)"
proof -
  have "track_uri entry \<notin> track_uri ` set (tracksToRemove TODAY window pl) \<longleftrightarrow>
        (\<forall>other\<in>set pl. track_uri other = track_uri entry \<longrightarrow>
           \<not> window * 86400000 \<le> TODAY - added_at other)"
  proof -
    have "track_uri entry \<in> track_uri ` set (tracksToRemove TODAY window pl) \<longleftrightarrow>
          (\<exists>other. other \<in> set (tracksToRemove TODAY window pl) \<and> track_uri other = track_uri entry)"
      unfolding image_iff by metis
    then show ?thesis unfolding tracksToRemove_iff by blast
  qed
  then show ?thesis by (simp add: age_less not_le)
qed

lemma kept_distinct:
  assumes "distinct (map track_uri pl)"
  shows "filter (\<lambda>entry. track_uri entry \<notin> track_uri ` set (tracksToRemove TODAY window pl)) pl =
         filter (\<lambda>entry. age_in_days TODAY (added_at entry) < of_int window) pl"
proof (rule filter_cong[OF refl])
  fix entry assume e: "entry \<in> set pl"
  from assms have inj: "inj_on track_uri (set pl)" by (simp add: distinct_map)
  have "track_uri entry \<in> track_uri ` set (tracksToRemove TODAY window pl) \<longleftrightarrow>
        entry \<in> set (tracksToRemove TODAY window pl)"
  proof
    assume "track_uri entry \<in> track_uri ` set (tracksToRemove TODAY window pl)"
    then obtain other where o: "other \<in> set (tracksToRemove TODAY window pl)"
      and u: "track_uri other = track_uri entry" by auto
    from o have "other \<in> set pl" by (simp add: tracksToRemove_iff)
    with inj e u have "other = entry" by (auto dest: inj_onD)
    with o show "entry \<in> set (tracksToRemove TODAY window pl)" by simp
  qed auto
  then show "(track_uri entry \<notin> track_uri ` set (tracksToRemove TODAY window pl)) =
             (age_in_days TODAY (added_at entry) < of_int window)"
    using e by (simp add: tracksToRemove_iff age_less not_le)
qed


section \<open>Lemmas on the updater and the handler\<close>

lemmas api_defs = addTracksToPlaylist_def getPlaylistTracks_def removeTracksFromPlaylist_def
  pruneOldTracksFromPlaylist_def add_to_archive_and_monthly_def

lemma updater_refresh_rejected:
  assumes "refreshAccessToken_rejects api = Some e"
  shows "addTrackToPlaylist cfg api spotifyURL w = (Inl e, w\<lparr>calls := calls w @ [RefreshAccessToken]\<rparr>)"
  using assms by (simp add: addTrackToPlaylist_def)

lemma updater_returns:
  assumes "refreshAccessToken_rejects api = None"
  shows "fst (addTrackToPlaylist cfg api spotifyURL w) = Inr ()"
  using assms
  by (simp add: addTrackToPlaylist_def api_defs Let_def split: option.splits)

lemma updater_calls:
  assumes "refreshAccessToken_rejects api = None"
  shows "\<exists>later. calls (snd (addTrackToPlaylist cfg api spotifyURL w)) =
           calls w @ [RefreshAccessToken,
                      AddTracksToPlaylist (SPOTIFY_ARCHIVE_PLAYLIST_ID cfg) [spotifyURL],
                      AddTracksToPlaylist (SPOTIFY_MONTHLY_PLAYLIST_ID cfg) [spotifyURL],
                      GetPlaylistTracks (SPOTIFY_MONTHLY_PLAYLIST_ID cfg) 50] @ later \<and>
           (\<forall>c\<in>set later. \<exists>tracks. c = RemoveTracksFromPlaylist (SPOTIFY_MONTHLY_PLAYLIST_ID cfg) tracks)"
  using assms
  by (simp add: addTrackToPlaylist_def api_defs Let_def split: option.splits)

lemma updater_archive_effect:
  assumes "refreshAccessToken_rejects api = None"
    and "addTracksToPlaylist_rejects api 0 = None"
    and "SPOTIFY_ARCHIVE_PLAYLIST_ID cfg \<noteq> SPOTIFY_MONTHLY_PLAYLIST_ID cfg"
  shows "playlists (snd (addTrackToPlaylist cfg api spotifyURL w)) (SPOTIFY_ARCHIVE_PLAYLIST_ID cfg) =
           playlists w (SPOTIFY_ARCHIVE_PLAYLIST_ID cfg) @ [\<lparr>track_uri = spotifyURL, added_at = clock w\<rparr>]"
  using assms
  by (simp add: addTrackToPlaylist_def api_defs Let_def split: option.splits)

lemma updater_prune_logged:
  assumes "refreshAccessToken_rejects api = None"
    and "getPlaylistTracks_rejects api = Some e \<or>
         (getPlaylistTracks_rejects api = None \<and> removeTracksFromPlaylist_rejects api = Some e)"
  shows "console (snd (addTrackToPlaylist cfg api spotifyURL w)) =
           console w @ [Error_FailedToAdd spotifyURL e]"
  using assms
  by (auto simp add: addTrackToPlaylist_def api_defs Let_def split: option.splits)

lemma updater_dj_returns: "fst (addTrackToPlaylist_dj cfg api spotifyURL w) = Inr ()"
  by (simp add: addTrackToPlaylist_dj_def api_defs Let_def split: option.splits)

lemma updater_dj_refresh_rejected:
  assumes "refreshAccessToken_rejects api = Some e"
  shows "snd (addTrackToPlaylist_dj cfg api spotifyURL w) =
           w\<lparr>calls := calls w @ [RefreshAccessToken],
             console := console w @ [Log_SomethingWentWrong e]\<rparr>"
  using assms by (simp add: addTrackToPlaylist_dj_def)

lemma updater_dj_add_rejected:
  assumes "refreshAccessToken_rejects api = None" and "addTracksToPlaylist_rejects api 0 = Some e"
  shows "snd (addTrackToPlaylist_dj cfg api spotifyURL w) =
           w\<lparr>calls := calls w @ [RefreshAccessToken,
                                  AddTracksToPlaylist (SPOTIFY_PLAYLIST_ID cfg) [spotifyURL]],
             console := console w @ [Log_Data, Log_SomethingWentWrong e]\<rparr>"
  using assms by (simp add: addTrackToPlaylist_dj_def api_defs)

lemma handler_reaches_updater:
  assumes "parseSlackWebhookPayload body (NODE_ENV_is_development cfg) = Inr tokens"
    and "isValidSlackWebhookPayload tokens"
    and "getSpotifyURI parse (to_string (get_property tokens (str ''text''))) = Inr (Some spotifyURL)"
  shows "handler parse cfg api body w =
           (Inr (),
            (case fst (addTrackToPlaylist cfg api spotifyURL w) of Inl err \<Rightarrow> [500, 200] | Inr json \<Rightarrow> [200]),
            snd (addTrackToPlaylist cfg api spotifyURL w))"
  using assms by (simp add: handler_def split: prod.splits sum.splits)

lemma add_playlists:
  "playlists (snd (addTracksToPlaylist api n playlistID [u] w)) other =
     (if other = playlistID \<and> addTracksToPlaylist_rejects api n = None
      then playlists w other @ [\<lparr>track_uri = u, added_at = clock w\<rparr>]
      else playlists w other)"
  by (simp add: addTracksToPlaylist_def Let_def split: option.splits)

lemma add_clock: "clock (snd (addTracksToPlaylist api n playlistID tracks w)) = clock w"
  by (simp add: addTracksToPlaylist_def Let_def split: option.splits)

lemma pruner_playlists:
  "playlists (snd (pruneOldTracksFromPlaylist api playlistID age w)) playlistID =
     (if getPlaylistTracks_rejects api = None \<and> removeTracksFromPlaylist_rejects api = None
      then filter (\<lambda>entry. track_uri entry \<notin>
              track_uri ` set (tracksToRemove (clock w) age (take 50 (playlists w playlistID))))
             (playlists w playlistID)
      else playlists w playlistID)"
  by (simp add: api_defs Let_def split: option.splits)

lemma pruner_keeps:
  assumes "entry \<in> set (playlists w playlistID)"
    and "\<forall>other\<in>set (playlists w playlistID).
           track_uri other = track_uri entry \<longrightarrow> clock w - added_at other < age * 86400000"
  shows "entry \<in> set (playlists (snd (pruneOldTracksFromPlaylist api playlistID age w)) playlistID)"
proof -
  have "track_uri entry \<notin>
          track_uri ` set (tracksToRemove (clock w) age (take 50 (playlists w playlistID)))"
  proof
    assume "track_uri entry \<in>
          track_uri ` set (tracksToRemove (clock w) age (take 50 (playlists w playlistID)))"
    then obtain other where o: "other \<in> set (take 50 (playlists w playlistID))"
      and old: "clock w - added_at other \<ge> age * 86400000"
      and same: "track_uri other = track_uri entry"
      by (auto simp: tracksToRemove_iff)
    from o have "other \<in> set (playlists w playlistID)" by (rule in_set_takeD)
    with assms(2) same have "clock w - added_at other < age * 86400000" by blast
    with old show False by simp
  qed
  with assms(1) show ?thesis by (simp add: pruner_playlists)
qed

lemma updater_world:
  assumes "refreshAccessToken_rejects api = None"
  shows "playlists (snd (addTrackToPlaylist cfg api spotifyURL w)) =
         playlists (snd (pruneOldTracksFromPlaylist api (SPOTIFY_MONTHLY_PLAYLIST_ID cfg) 30
           (snd (add_to_archive_and_monthly cfg api spotifyURL
                  (w\<lparr>calls := calls w @ [RefreshAccessToken]\<rparr>)))))"
  using assms by (simp add: addTrackToPlaylist_def split_def Let_def split: sum.splits)

lemma settled_world:
  "snd (add_to_archive_and_monthly cfg api spotifyURL w) =
     snd (addTracksToPlaylist api 1 (SPOTIFY_MONTHLY_PLAYLIST_ID cfg) [spotifyURL]
       (snd (addTracksToPlaylist api 0 (SPOTIFY_ARCHIVE_PLAYLIST_ID cfg) [spotifyURL] w)))"
  by (simp add: add_to_archive_and_monthly_def split_def Let_def)

lemma settled_results:
  "fst (add_to_archive_and_monthly cfg api spotifyURL w) =
     (addTracksToPlaylist_rejects api 0, addTracksToPlaylist_rejects api 1)"
  by (simp add: add_to_archive_and_monthly_def addTracksToPlaylist_def split_def Let_def
      split: option.splits)

lemma settled_archive:
  assumes "addTracksToPlaylist_rejects api 0 = None"
  shows "\<lparr>track_uri = spotifyURL, added_at = clock w\<rparr> \<in>
           set (playlists (snd (add_to_archive_and_monthly cfg api spotifyURL w))
                  (SPOTIFY_ARCHIVE_PLAYLIST_ID cfg))"
  using assms by (simp add: settled_world add_playlists add_clock)

lemma settled_monthly:
  assumes "addTracksToPlaylist_rejects api 1 = None"
  shows "\<lparr>track_uri = spotifyURL, added_at = clock w\<rparr> \<in>
           set (playlists (snd (add_to_archive_and_monthly cfg api spotifyURL w))
                  (SPOTIFY_MONTHLY_PLAYLIST_ID cfg))"
  using assms by (simp add: settled_world add_playlists add_clock)

lemma updater_monthly_effect:
  assumes "refreshAccessToken_rejects api = None"
    and "addTracksToPlaylist_rejects api 1 = None"
    and "spotifyURL \<notin> track_uri ` set (playlists w (SPOTIFY_MONTHLY_PLAYLIST_ID cfg))"
  shows "\<lparr>track_uri = spotifyURL, added_at = clock w\<rparr> \<in>
           set (playlists (snd (addTrackToPlaylist cfg api spotifyURL w)) (SPOTIFY_MONTHLY_PLAYLIST_ID cfg))"
proof -
  let ?M = "SPOTIFY_MONTHLY_PLAYLIST_ID cfg"
  let ?new = "\<lparr>track_uri = spotifyURL, added_at = clock w\<rparr>"
  let ?w1 = "w\<lparr>calls := calls w @ [RefreshAccessToken]\<rparr>"
  let ?w2 = "snd (addTracksToPlaylist api 0 (SPOTIFY_ARCHIVE_PLAYLIST_ID cfg) [spotifyURL] ?w1)"
  let ?w3 = "snd (addTracksToPlaylist api 1 ?M [spotifyURL] ?w2)"
  have clock: "clock ?w3 = clock w" by (simp add: add_clock)
  have p2: "set (playlists ?w2 ?M) \<subseteq> set (playlists w ?M) \<union> {?new}"
    by (auto simp: add_playlists)
  have p3: "playlists ?w3 ?M = playlists ?w2 ?M @ [?new]"
    using assms(2) by (simp add: add_playlists add_clock)
  have in3: "?new \<in> set (playlists ?w3 ?M)" unfolding p3 by simp
  have young: "\<forall>other\<in>set (playlists ?w3 ?M).
           track_uri other = track_uri ?new \<longrightarrow> clock ?w3 - added_at other < 30 * 86400000"
  proof (intro ballI impI)
    fix other
    assume "other \<in> set (playlists ?w3 ?M)" and same: "track_uri other = track_uri ?new"
    then have "other \<in> set (playlists w ?M) \<or> other = ?new" using p2 unfolding p3 by auto
    with same assms(3) have "other = ?new" by auto
    then show "clock ?w3 - added_at other < 30 * 86400000" unfolding clock by simp
  qed
  from pruner_keeps[OF in3 young] show ?thesis
    unfolding updater_world[OF assms(1)] settled_world .
qed

lemma getSpotifyURI_non_track:
  assumes "decodeURIComponent text = Inr decoded"
    and "URL_REGEX_match decoded = Some (whole, m)"
    and "parse (butlast m) = Inr p" and "type p \<noteq> str ''track''"
  shows "getSpotifyURI parse text = Inr (Some (butlast m))"
  using getSpotifyURI_found[OF assms(1,2), of parse] assms(3,4) by simp


section \<open>Claims\<close>

subsection \<open>The extractor\<close>

text \<open>
  C1. Claimed: when the first URL of the text, decoded and stripped of its last code
  unit, parses as a resource that is no track (an album, a playlist, an artist, a show),
  \<open>getSpotifyURI\<close> returns \<open>undefined\<close>. The function tests \<open>type === "track"\<close> and
  has no branch for the other types: \<open>spotifyURL\<close> keeps the stripped URL and that
  string is returned. On the album link below the parser answers with the type
  \<open>album\<close>, and the result is the link, not \<open>undefined\<close>.
\<close>

theorem non_track_url_is_returned:
  "spotifyUri_parse (str ''https://open.spotify.com/album/4aawyAB9vmqN3uQ7FjRGTy'') =
     Inr \<lparr>type = str ''album'', toURI = str ''spotify:album:4aawyAB9vmqN3uQ7FjRGTy''\<rparr> \<and>
   getSpotifyURI spotifyUri_parse (str ''%3Chttps%3A%2F%2Fopen.spotify.com%2Falbum%2F4aawyAB9vmqN3uQ7FjRGTy%3E'') =
     Inr (Some (str ''https://open.spotify.com/album/4aawyAB9vmqN3uQ7FjRGTy''))"
  by code_simp

text \<open>
  C3. Claimed: when the URI parser raises on the stripped candidate, \<open>getSpotifyURI\<close>
  returns \<open>undefined\<close> and the exception does not reach the caller. The function calls
  the parser outside any \<open>try\<close>. As amended: whenever a URL is found in the decoded text
  and the parser raises on the candidate, that exception leaves \<open>getSpotifyURI\<close>.
\<close>

theorem parse_exception_propagates:
  assumes "decodeURIComponent text = Inr decoded"
    and "URL_REGEX_match decoded = Some (whole, m)"
    and "parse (butlast m) = Inl e"
  shows "getSpotifyURI parse text = Inl e"
  using getSpotifyURI_found[OF assms(1,2), of parse] assms(3) by simp

theorem parse_exception_propagates_witness:
  "decodeURIComponent (str ''<https://example.com/>'') = Inr (str ''<https://example.com/>'') \<and>
   URL_REGEX_match (str ''<https://example.com/>'') =
     Some (str ''https://example.com/>'', str ''https://example.com/>'') \<and>
   spotifyUri_parse (butlast (str ''https://example.com/>'')) = Inl TypeError \<and>
   getSpotifyURI spotifyUri_parse (str ''<https://example.com/>'') = Inl TypeError"
proof -
  let ?t = "str ''<https://example.com/>''"
  let ?m = "str ''https://example.com/>''"
  have d: "decodeURIComponent ?t = Inr ?t" by code_simp
  have u: "URL_REGEX_match ?t = Some (?m, ?m)" by code_simp
  have p: "spotifyUri_parse (butlast ?m) = Inl TypeError" by code_simp
  show ?thesis using d u p parse_exception_propagates[where parse = spotifyUri_parse, OF d u p] by simp
qed

text \<open>
  The claim as stated fails on a bracketed link with no resource type: the parser
  raises, and so does \<open>getSpotifyURI\<close>.
\<close>

theorem parse_exception_counterexample:
  "decodeURIComponent (str ''<https://example.com/>'') = Inr (str ''<https://example.com/>'') \<and>
   URL_REGEX_match (str ''<https://example.com/>'') =
     Some (str ''https://example.com/>'', str ''https://example.com/>'') \<and>
   spotifyUri_parse (str ''https://example.com/'') = Inl TypeError \<and>
   getSpotifyURI spotifyUri_parse (str ''<https://example.com/>'') = Inl TypeError"
  by code_simp

text \<open>
  C6. Claimed: for every text that contains a track URL in angle brackets the result is
  the track's canonical URI, and the percent-encoded example text gives
  \<open>spotify:track:6J1Qcreg3a9hlJuvJCvjl5\<close>. The expression takes the first URL of the
  text and the run ends only at a space. As amended: when the decoded text is
  \<open>pre <url> post\<close>, no URL starts before the opening bracket, the URL has no space
  and the closing bracket is followed by a space or by the end of the text, and the
  parser reads the URL as a track, the result is that track's \<open>toURI()\<close>; the example
  text gives the URI claimed, for every parser that reads its link as that track. (60 is
  \<open><\<close>, 62 is \<open>>\<close>.)
\<close>

theorem bracketed_track_is_extracted:
  "(\<forall>pre url post p.
      decodeURIComponent text = Inr (pre @ [60] @ url @ [62] @ post) \<and>
      URL_REGEX_match (pre @ [60]) = None \<and> starts_url url \<and> 32 \<notin> set url \<and>
      (post = [] \<or> hd post = 32) \<and> parse url = Inr p \<and> type p = str ''track'' \<longrightarrow>
      getSpotifyURI parse text = Inr (Some (toURI p))) \<and>
   (parse (str ''https://open.spotify.com/track/6J1Qcreg3a9hlJuvJCvjl5?si=2vEISP1TS0iilwluZTeDSQ'') =
      Inr \<lparr>type = str ''track'', toURI = str ''spotify:track:6J1Qcreg3a9hlJuvJCvjl5''\<rparr> \<longrightarrow>
    getSpotifyURI parse
      (str ''%3Chttps%3A%2F%2Fopen.spotify.com%2Ftrack%2F6J1Qcreg3a9hlJuvJCvjl5%3Fsi%3D2vEISP1TS0iilwluZTeDSQ%3E'') =
      Inr (Some (str ''spotify:track:6J1Qcreg3a9hlJuvJCvjl5'')))"
proof -
  let ?url = "str ''https://open.spotify.com/track/6J1Qcreg3a9hlJuvJCvjl5?si=2vEISP1TS0iilwluZTeDSQ''"
  let ?text = "str ''%3Chttps%3A%2F%2Fopen.spotify.com%2Ftrack%2F6J1Qcreg3a9hlJuvJCvjl5%3Fsi%3D2vEISP1TS0iilwluZTeDSQ%3E''"
  have d: "decodeURIComponent ?text = Inr ([] @ [60] @ ?url @ [62] @ [])" by code_simp
  have n: "URL_REGEX_match ([] @ [60]) = None" by code_simp
  have s: "starts_url ?url" by code_simp
  have sp: "32 \<notin> set ?url" by code_simp
  have "parse ?url = Inr \<lparr>type = str ''track'', toURI = str ''spotify:track:6J1Qcreg3a9hlJuvJCvjl5''\<rparr> \<Longrightarrow>
        getSpotifyURI parse ?text = Inr (Some (str ''spotify:track:6J1Qcreg3a9hlJuvJCvjl5''))"
    using getSpotifyURI_bracketed[where parse = parse and post = "[]", OF d n s sp] by simp
  then show ?thesis
    using getSpotifyURI_bracketed[of "text" _ _ _ parse] by blast
qed

theorem bracketed_track_is_extracted_witness:
  "decodeURIComponent (str ''hey <https://open.spotify.com/track/ABC123?si=xyz> :)'') =
     Inr (str ''hey '' @ [60] @ str ''https://open.spotify.com/track/ABC123?si=xyz'' @ [62] @ str '' :)'') \<and>
   URL_REGEX_match (str ''hey '' @ [60]) = None \<and>
   starts_url (str ''https://open.spotify.com/track/ABC123?si=xyz'') \<and>
   32 \<notin> set (str ''https://open.spotify.com/track/ABC123?si=xyz'') \<and>
   hd (str '' :)'') = 32 \<and>
   spotifyUri_parse (str ''https://open.spotify.com/track/ABC123?si=xyz'') =
     Inr \<lparr>type = str ''track'', toURI = str ''spotify:track:ABC123''\<rparr> \<and>
   getSpotifyURI spotifyUri_parse (str ''hey <https://open.spotify.com/track/ABC123?si=xyz> :)'') =
     Inr (Some (str ''spotify:track:ABC123'')) \<and>
   getSpotifyURI spotifyUri_parse
      (str ''%3Chttps%3A%2F%2Fopen.spotify.com%2Ftrack%2F6J1Qcreg3a9hlJuvJCvjl5%3Fsi%3D2vEISP1TS0iilwluZTeDSQ%3E'') =
      Inr (Some (str ''spotify:track:6J1Qcreg3a9hlJuvJCvjl5''))"
proof -
  let ?text = "str ''hey <https://open.spotify.com/track/ABC123?si=xyz> :)''"
  let ?url = "str ''https://open.spotify.com/track/ABC123?si=xyz''"
  let ?p = "\<lparr>type = str ''track'', toURI = str ''spotify:track:ABC123''\<rparr>"
  have d: "decodeURIComponent ?text = Inr (str ''hey '' @ [60] @ ?url @ [62] @ str '' :)'')"
    by code_simp
  have n: "URL_REGEX_match (str ''hey '' @ [60]) = None" by code_simp
  have s: "starts_url ?url" by code_simp
  have sp: "32 \<notin> set ?url" by code_simp
  have po: "hd (str '' :)'') = 32" by code_simp
  have pa: "spotifyUri_parse ?url = Inr ?p" by code_simp
  have ty: "type ?p = str ''track''" by simp
  have pa2: "spotifyUri_parse (str ''https://open.spotify.com/track/6J1Qcreg3a9hlJuvJCvjl5?si=2vEISP1TS0iilwluZTeDSQ'') =
      Inr \<lparr>type = str ''track'', toURI = str ''spotify:track:6J1Qcreg3a9hlJuvJCvjl5''\<rparr>"
    by code_simp
  from bracketed_track_is_extracted[of ?text spotifyUri_parse] d n s sp po pa ty
  have "getSpotifyURI spotifyUri_parse ?text = Inr (Some (toURI ?p))" by blast
  moreover from bracketed_track_is_extracted[of ?text spotifyUri_parse] pa2
  have "getSpotifyURI spotifyUri_parse
      (str ''%3Chttps%3A%2F%2Fopen.spotify.com%2Ftrack%2F6J1Qcreg3a9hlJuvJCvjl5%3Fsi%3D2vEISP1TS0iilwluZTeDSQ%3E'') =
      Inr (Some (str ''spotify:track:6J1Qcreg3a9hlJuvJCvjl5''))" by blast
  ultimately show ?thesis using d n s sp po pa by simp
qed

text \<open>
  The claim as stated fails when another link comes first: the text below contains the
  bracketed track link, and the extractor works on the link before it.
\<close>

theorem bracketed_track_counterexample:
  "getSpotifyURI spotifyUri_parse
     (str ''<https://example.com/> <https://open.spotify.com/track/ABC123?si=xyz>'') = Inl TypeError \<and>
   spotifyUri_parse (str ''https://open.spotify.com/track/ABC123?si=xyz'') =
     Inr \<lparr>type = str ''track'', toURI = str ''spotify:track:ABC123''\<rparr>"
  by code_simp

text \<open>
  C7. Whenever the expression matches in the decoded text, the match \<open>m\<close> is the
  leftmost run without a space that starts with \<open>http://\<close> or \<open>https://\<close>, exactly one
  code unit is taken from its end, whatever that code unit is, and the parser is called
  on the rest \<open>butlast m\<close>: for every parser the result of \<open>getSpotifyURI\<close> is decided by
  what the parser returns there. The witness is a text without brackets, where the last
  character of the link itself is lost.
\<close>

theorem extractor_strips_last_code_unit:
  assumes "decodeURIComponent text = Inr decoded"
    and "URL_REGEX_match decoded = Some (whole, m)"
  shows "(\<exists>pre post. decoded = pre @ m @ post \<and> starts_url m \<and> 32 \<notin> set m \<and>
            (post = [] \<or> hd post = 32) \<and> (\<forall>i<length pre. \<not> starts_url (drop i decoded))) \<and>
         butlast m @ [last m] = m \<and> butlast m \<noteq> [] \<and>
         (\<forall>parse. getSpotifyURI parse text =
            (case parse (butlast m) of
               Inl e \<Rightarrow> Inl e
             | Inr p \<Rightarrow> Inr (Some (if type p = str ''track'' then toURI p else butlast m))))"
proof -
  from URL_REGEX_match_Some[OF assms(2)]
  have dec: "\<exists>pre post. decoded = pre @ m @ post \<and> starts_url m \<and> 32 \<notin> set m \<and>
            (post = [] \<or> hd post = 32) \<and> (\<forall>i<length pre. \<not> starts_url (drop i decoded))"
    by blast
  then have "starts_url m" by blast
  then have len: "7 \<le> length m" by (rule starts_url_length)
  then have ne: "m \<noteq> []" by auto
  then have snoc: "butlast m @ [last m] = m" by simp
  from len have bl: "butlast m \<noteq> []" by (cases m rule: rev_cases) auto
  show ?thesis
    using dec snoc bl getSpotifyURI_found[OF assms] by blast
qed

theorem extractor_strips_last_code_unit_witness:
  "decodeURIComponent (str ''play https://open.spotify.com/track/ABC123 now'') =
     Inr (str ''play https://open.spotify.com/track/ABC123 now'') \<and>
   URL_REGEX_match (str ''play https://open.spotify.com/track/ABC123 now'') =
     Some (str ''https://open.spotify.com/track/ABC123'', str ''https://open.spotify.com/track/ABC123'') \<and>
   butlast (str ''https://open.spotify.com/track/ABC123'') = str ''https://open.spotify.com/track/ABC12'' \<and>
   getSpotifyURI spotifyUri_parse (str ''play https://open.spotify.com/track/ABC123 now'') =
     Inr (Some (str ''spotify:track:ABC12''))"
proof -
  let ?t = "str ''play https://open.spotify.com/track/ABC123 now''"
  let ?m = "str ''https://open.spotify.com/track/ABC123''"
  have d: "decodeURIComponent ?t = Inr ?t" by code_simp
  have u: "URL_REGEX_match ?t = Some (?m, ?m)" by code_simp
  have b: "butlast ?m = str ''https://open.spotify.com/track/ABC12''" by code_simp
  from extractor_strips_last_code_unit[OF d u]
  have "getSpotifyURI spotifyUri_parse ?t =
          (case spotifyUri_parse (butlast ?m) of
             Inl e \<Rightarrow> Inl e
           | Inr p \<Rightarrow> Inr (Some (if type p = str ''track'' then toURI p else butlast ?m)))"
    by blast
  also have "\<dots> = Inr (Some (str ''spotify:track:ABC12''))" by code_simp
  finally show ?thesis using d u b by simp
qed


subsection \<open>The normalizer\<close>

text \<open>
  C8. Claimed: each pair is split at its first \<open>=\<close> only, the value being everything
  after it. \<open>cur.split("=")\<close> splits at every \<open>=\<close> and the destructuring keeps the
  first two pieces. As amended: the payload string is split at every \<open>&\<close> (the pieces
  rejoin to the payload); of each pair the key is the text before the first \<open>=\<close> and
  the value the text between the first \<open>=\<close> and the second (or the end of the pair),
  what follows a second \<open>=\<close> being dropped; a pair without \<open>=\<close> maps its whole text to
  \<open>undefined\<close>; the function raises on no string, and in \<open>src/unnamed/part_000\<close> it
  splits only under the \<open>isLocalDevelopment\<close> flag and returns the string unchanged
  without it.
\<close>

theorem normalizer_first_two_pieces:
  "parseSlackWebhookPayload (PString s) True = Inr (PObject (parseSlackWebhookPayload_dj s)) \<and>
   parseSlackWebhookPayload (PString s) False = Inr (PString s) \<and>
   parseSlackWebhookPayload_dj s =
     map_of (rev (map (\<lambda>cur. (key_of cur, value_of cur)) (js_split 38 s))) \<and>
   concat (map ((#) 38) (js_split 38 s)) = 38 # s \<and>
   (\<forall>cur\<in>set (js_split 38 s). 38 \<notin> set cur) \<and>
   (\<forall>prev cur. reducer prev cur = prev(key_of cur \<mapsto> value_of cur)) \<and>
   (\<forall>cur. 61 \<notin> set cur \<longrightarrow> key_of cur = cur \<and> value_of cur = Undefined) \<and>
   (\<forall>k v rest. 61 \<notin> set k \<and> 61 \<notin> set v \<longrightarrow>
      key_of (k @ 61 # v) = k \<and> value_of (k @ 61 # v) = Str v \<and>
      key_of (k @ 61 # v @ 61 # rest) = k \<and> value_of (k @ 61 # v @ 61 # rest) = Str v)"
proof -
  have tw: "\<And>a b. 61 \<notin> set a \<Longrightarrow> takeWhile (\<lambda>c. c \<noteq> 61) (a @ 61 # b) = a"
    by (subst takeWhile_append2) auto
  have dw: "\<And>a b. 61 \<notin> set a \<Longrightarrow> dropWhile (\<lambda>c. c \<noteq> 61) (a @ 61 # b) = 61 # b"
    by (subst dropWhile_append2) auto
  have tw0: "\<And>a. 61 \<notin> set a \<Longrightarrow> takeWhile (\<lambda>c. c \<noteq> 61) a = a"
    by (auto simp: takeWhile_eq_all_conv)
  have a: "parseSlackWebhookPayload (PString s) True = Inr (PObject (parseSlackWebhookPayload_dj s))"
    by (simp add: parseSlackWebhookPayload_def parseSlackWebhookPayload_dj_def)
  have b: "parseSlackWebhookPayload (PString s) False = Inr (PString s)"
    by (simp add: parseSlackWebhookPayload_def)
  have c: "parseSlackWebhookPayload_dj s =
     map_of (rev (map (\<lambda>cur. (key_of cur, value_of cur)) (js_split 38 s)))"
    by (simp add: parseSlackWebhookPayload_dj_def foldl_reducer)
  have d: "\<forall>cur\<in>set (js_split 38 s). 38 \<notin> set cur"
    using js_split_pieces by blast
  have e: "\<forall>cur. 61 \<notin> set cur \<longrightarrow> key_of cur = cur \<and> value_of cur = Undefined"
    by (simp add: key_of_def value_of_def tw0)
  have f: "\<forall>k v rest. 61 \<notin> set k \<and> 61 \<notin> set v \<longrightarrow>
      key_of (k @ 61 # v) = k \<and> value_of (k @ 61 # v) = Str v \<and>
      key_of (k @ 61 # v @ 61 # rest) = k \<and> value_of (k @ 61 # v @ 61 # rest) = Str v"
    by (simp add: key_of_def value_of_def tw dw tw0)
  show ?thesis
    using a b c d e f js_split_join[of 38 s] reducer_eq by blast
qed

theorem normalizer_first_two_pieces_witness:
  "parseSlackWebhookPayload (PString (str ''token=T&text=a=b&flag'')) True =
     Inr (PObject (parseSlackWebhookPayload_dj (str ''token=T&text=a=b&flag''))) \<and>
   parseSlackWebhookPayload_dj (str ''token=T&text=a=b&flag'') (str ''token'') = Some (Str (str ''T'')) \<and>
   parseSlackWebhookPayload_dj (str ''token=T&text=a=b&flag'') (str ''text'') = Some (Str (str ''a'')) \<and>
   parseSlackWebhookPayload_dj (str ''token=T&text=a=b&flag'') (str ''flag'') = Some Undefined \<and>
   parseSlackWebhookPayload_dj (str ''token=T&text=a=b&flag'') (str ''b'') = None"
proof -
  let ?s = "str ''token=T&text=a=b&flag''"
  let ?kv = "map_of (rev (map (\<lambda>cur. (key_of cur, value_of cur)) (js_split 38 ?s)))"
  from normalizer_first_two_pieces[of ?s]
  have a: "parseSlackWebhookPayload (PString ?s) True = Inr (PObject (parseSlackWebhookPayload_dj ?s))"
    and b: "parseSlackWebhookPayload_dj ?s = ?kv"
    by blast+
  have "?kv (str ''token'') = Some (Str (str ''T''))" by code_simp
  moreover have "?kv (str ''text'') = Some (Str (str ''a''))" by code_simp
  moreover have "?kv (str ''flag'') = Some Undefined" by code_simp
  moreover have "?kv (str ''b'') = None" by code_simp
  ultimately show ?thesis using a b by simp
qed

text \<open>
  The claim as stated fails on a value that contains \<open>=\<close>: the specification's split
  gives \<open>a=b\<close>, the program stores \<open>a\<close>.
\<close>

theorem normalizer_value_counterexample:
  "parseSlackWebhookPayload_dj (str ''text=a=b'') (str ''text'') = Some (Str (str ''a'')) \<and>
   parseSlackWebhookPayload (PString (str ''text=a=b'')) True =
     Inr (PObject (parseSlackWebhookPayload_dj (str ''text=a=b''))) \<and>
   split_at_first_eq (str ''text=a=b'') = (str ''text'', Str (str ''a=b'')) \<and>
   str ''a'' \<noteq> str ''a=b''"
proof -
  have "parseSlackWebhookPayload_dj (str ''text=a=b'') (str ''text'') = Some (Str (str ''a''))"
    by code_simp
  moreover have "parseSlackWebhookPayload (PString (str ''text=a=b'')) True =
     Inr (PObject (parseSlackWebhookPayload_dj (str ''text=a=b'')))"
    by (simp add: parseSlackWebhookPayload_def parseSlackWebhookPayload_dj_def)
  moreover have "split_at_first_eq (str ''text=a=b'') = (str ''text'', Str (str ''a=b''))"
    by code_simp
  moreover have "str ''a'' \<noteq> str ''a=b''"
    by code_simp
  ultimately show ?thesis by blast
qed

text \<open>
  C10. When several pairs have the same key, the mapping holds the value of the last of
  them: a pair whose key no later pair has decides the value of its key. The keys of
  the mapping are the keys of the pairs, one entry for each different key.
\<close>

theorem normalizer_last_pair_wins:
  "(\<forall>before cur after.
      js_split 38 s = before @ cur # after \<and> key_of cur \<notin> key_of ` set after \<longrightarrow>
      parseSlackWebhookPayload_dj s (key_of cur) = Some (value_of cur)) \<and>
   dom (parseSlackWebhookPayload_dj s) = key_of ` set (js_split 38 s) \<and>
   card (dom (parseSlackWebhookPayload_dj s)) = length (remdups (map key_of (js_split 38 s))) \<and>
   parseSlackWebhookPayload (PString s) True = Inr (PObject (parseSlackWebhookPayload_dj s))"
proof -
  have a: "\<forall>before cur after.
      js_split 38 s = before @ cur # after \<and> key_of cur \<notin> key_of ` set after \<longrightarrow>
      parseSlackWebhookPayload_dj s (key_of cur) = Some (value_of cur)"
  proof (intro allI impI, elim conjE)
    fix before cur after
    assume split: "js_split 38 s = before @ cur # after"
      and last: "key_of cur \<notin> key_of ` set after"
    show "parseSlackWebhookPayload_dj s (key_of cur) = Some (value_of cur)"
      unfolding parseSlackWebhookPayload_dj_def split by (rule foldl_reducer_last[OF last])
  qed
  have b: "dom (parseSlackWebhookPayload_dj s) = key_of ` set (js_split 38 s)"
    by (simp add: parseSlackWebhookPayload_dj_def dom_foldl_reducer)
  have c: "card (dom (parseSlackWebhookPayload_dj s)) = length (remdups (map key_of (js_split 38 s)))"
    unfolding b by (simp add: length_remdups_card_conv)
  have d: "parseSlackWebhookPayload (PString s) True = Inr (PObject (parseSlackWebhookPayload_dj s))"
    by (simp add: parseSlackWebhookPayload_def parseSlackWebhookPayload_dj_def)
  show ?thesis using a b c d by blast
qed

theorem normalizer_last_pair_wins_witness:
  "js_split 38 (str ''a=1&b=2&a=3'') = [str ''a=1'', str ''b=2''] @ str ''a=3'' # [] \<and>
   key_of (str ''a=3'') = str ''a'' \<and> value_of (str ''a=3'') = Str (str ''3'') \<and>
   parseSlackWebhookPayload_dj (str ''a=1&b=2&a=3'') (str ''a'') = Some (Str (str ''3'')) \<and>
   card (dom (parseSlackWebhookPayload_dj (str ''a=1&b=2&a=3''))) = 2"
proof -
  let ?s = "str ''a=1&b=2&a=3''"
  have h: "js_split 38 ?s = [str ''a=1'', str ''b=2''] @ str ''a=3'' # []" by code_simp
  have k: "key_of (str ''a=3'') = str ''a''" by code_simp
  have v: "value_of (str ''a=3'') = Str (str ''3'')" by code_simp
  have n: "key_of (str ''a=3'') \<notin> key_of ` set []" by simp
  from normalizer_last_pair_wins[of ?s] h n
  have "parseSlackWebhookPayload_dj ?s (key_of (str ''a=3'')) = Some (value_of (str ''a=3''))"
    by blast
  moreover from normalizer_last_pair_wins[of ?s]
  have "card (dom (parseSlackWebhookPayload_dj ?s)) = length (remdups (map key_of (js_split 38 ?s)))"
    by blast
  moreover have "length (remdups (map key_of (js_split 38 ?s))) = 2" by code_simp
  ultimately show ?thesis using h k v by simp
qed


subsection \<open>The pruner\<close>

text \<open>
  C5. Claimed: for every playlist entry the pruner takes the age in days, selects exactly
  the entries at or beyond the window, and removes no entry younger than the window. The
  remove call names tracks by URI, and the service deletes every entry that has a named
  URI. As amended, for a playlist that fits on the listed page (at most 50 entries), a
  window of 0 or more and less than 10^8 days, times of the \<open>Date\<close> range and fulfilled
  calls: the age of an entry is the difference of the current time and its add time, in
  seconds, divided by 86400; the entries selected are exactly those whose age is at
  least the window (one added exactly the window ago is selected, one added a day less
  ago is not); one remove call names the URIs of the selected entries, and the playlist
  afterwards holds, in their order, the entries whose URI no selected entry has. So
  every entry at or beyond the window is removed, and a younger entry is retained if and
  only if no entry at or beyond the window has its URI; when the URIs of the playlist
  are all different, exactly the entries younger than the window remain. (Playlists
  longer than the page are not covered here.)
\<close>

theorem pruner_removes_by_age:
  assumes "getPlaylistTracks_rejects api = None" and "removeTracksFromPlaylist_rejects api = None"
    and "length (playlists w playlistID) \<le> 50"
    and "0 \<le> window" and "window < 100000000"
    and "\<bar>clock w\<bar> \<le> 8640000000000000"
    and "\<forall>entry\<in>set (playlists w playlistID). \<bar>added_at entry\<bar> \<le> 8640000000000000"
  shows "(\<forall>entry. diffInDays (clock w) entry = age_in_days (clock w) (added_at entry)) \<and>
   tracksToRemove (clock w) window (playlists w playlistID) =
     filter (\<lambda>entry. of_int window \<le> age_in_days (clock w) (added_at entry))
       (playlists w playlistID) \<and>
   (\<forall>entry\<in>set (playlists w playlistID).
      added_at entry = clock w - window * 86400000 \<longrightarrow>
      entry \<in> set (tracksToRemove (clock w) window (playlists w playlistID))) \<and>
   (\<forall>entry\<in>set (playlists w playlistID).
      added_at entry = clock w - (window - 1) * 86400000 \<longrightarrow>
      entry \<notin> set (tracksToRemove (clock w) window (playlists w playlistID))) \<and>
   pruneOldTracksFromPlaylist api playlistID window w =
     (Inr (),
      w\<lparr>calls := calls w @
           [GetPlaylistTracks playlistID 50,
            RemoveTracksFromPlaylist playlistID
              (map track_uri (tracksToRemove (clock w) window (playlists w playlistID)))],
        playlists := (playlists w)
           (playlistID := filter (\<lambda>entry. track_uri entry \<notin>
                track_uri ` set (tracksToRemove (clock w) window (playlists w playlistID)))
              (playlists w playlistID)),
        console := console w @
           [Log_Pruned (length (tracksToRemove (clock w) window (playlists w playlistID)))
              playlistID]\<rparr>) \<and>
   (\<forall>entry\<in>set (playlists w playlistID).
      of_int window \<le> age_in_days (clock w) (added_at entry) \<longrightarrow>
      entry \<notin> set (playlists (snd (pruneOldTracksFromPlaylist api playlistID window w)) playlistID)) \<and>
   (\<forall>entry\<in>set (playlists w playlistID).
      age_in_days (clock w) (added_at entry) < of_int window \<longrightarrow>
      (entry \<in> set (playlists (snd (pruneOldTracksFromPlaylist api playlistID window w)) playlistID)
       \<longleftrightarrow>
       (\<forall>other\<in>set (playlists w playlistID).
          track_uri other = track_uri entry \<longrightarrow>
          age_in_days (clock w) (added_at other) < of_int window))) \<and>
   (distinct (map track_uri (playlists w playlistID)) \<longrightarrow>
      playlists (snd (pruneOldTracksFromPlaylist api playlistID window w)) playlistID =
        filter (\<lambda>entry. age_in_days (clock w) (added_at entry) < of_int window)
          (playlists w playlistID))"
proof -
  let ?pl = "playlists w playlistID"
  let ?sel = "tracksToRemove (clock w) window ?pl"
  let ?kept = "filter (\<lambda>entry. track_uri entry \<notin> track_uri ` set ?sel) ?pl"
  note run = pruner_single_page[OF assms(1-3), of window]
  have after: "playlists (snd (pruneOldTracksFromPlaylist api playlistID window w)) playlistID = ?kept"
    unfolding run by simp
  have a: "\<forall>entry. diffInDays (clock w) entry = age_in_days (clock w) (added_at entry)"
    by (simp add: diffInDays_age)
  have b: "?sel = filter (\<lambda>entry. of_int window \<le> age_in_days (clock w) (added_at entry)) ?pl"
    by (simp add: tracksToRemove_def diffInDays_age)
  have c: "\<forall>entry\<in>set ?pl. added_at entry = clock w - window * 86400000 \<longrightarrow> entry \<in> set ?sel"
    by (simp add: tracksToRemove_iff)
  have d: "\<forall>entry\<in>set ?pl. added_at entry = clock w - (window - 1) * 86400000 \<longrightarrow> entry \<notin> set ?sel"
    by (simp add: tracksToRemove_iff algebra_simps)
  have e: "\<forall>entry\<in>set ?pl. of_int window \<le> age_in_days (clock w) (added_at entry) \<longrightarrow>
      entry \<notin> set (playlists (snd (pruneOldTracksFromPlaylist api playlistID window w)) playlistID)"
    unfolding after kept_iff by (auto simp: not_less)
  have f: "\<forall>entry\<in>set ?pl. age_in_days (clock w) (added_at entry) < of_int window \<longrightarrow>
      (entry \<in> set (playlists (snd (pruneOldTracksFromPlaylist api playlistID window w)) playlistID)
       \<longleftrightarrow>
       (\<forall>other\<in>set ?pl. track_uri other = track_uri entry \<longrightarrow>
          age_in_days (clock w) (added_at other) < of_int window))"
    unfolding after kept_iff by simp
  have g: "distinct (map track_uri ?pl) \<longrightarrow>
      playlists (snd (pruneOldTracksFromPlaylist api playlistID window w)) playlistID =
        filter (\<lambda>entry. age_in_days (clock w) (added_at entry) < of_int window) ?pl"
    unfolding after by (simp add: kept_distinct)
  show ?thesis
    by (intro conjI a b c d run e f g)
qed

theorem pruner_removes_by_age_witness:
  "getPlaylistTracks_rejects all_fulfilled = None \<and>
   removeTracksFromPlaylist_rejects all_fulfilled = None \<and>
   length (playlists world_three (str ''monthly'')) \<le> 50 \<and>
   \<bar>clock world_three\<bar> \<le> 8640000000000000 \<and>
   distinct (map track_uri (playlists world_three (str ''monthly''))) \<and>
   tracksToRemove (clock world_three) 30 (playlists world_three (str ''monthly'')) =
     [\<lparr>track_uri = str ''a'', added_at = 8640000000 - 30 * 86400000\<rparr>,
      \<lparr>track_uri = str ''c'', added_at = 0\<rparr>] \<and>
   playlists (snd (pruneOldTracksFromPlaylist all_fulfilled (str ''monthly'') 30 world_three))
     (str ''monthly'') =
     [\<lparr>track_uri = str ''b'', added_at = 8640000000 - (30 - 1) * 86400000\<rparr>]"
proof -
  let ?a = "\<lparr>track_uri = str ''a'', added_at = 8640000000 - 30 * 86400000\<rparr>"
  let ?b = "\<lparr>track_uri = str ''b'', added_at = 8640000000 - (30 - 1) * 86400000\<rparr>"
  let ?c = "\<lparr>track_uri = str ''c'', added_at = 0\<rparr>"
  have l: "getPlaylistTracks_rejects all_fulfilled = None"
    and r: "removeTracksFromPlaylist_rejects all_fulfilled = None"
    by (simp_all add: all_fulfilled_def)
  have pl: "playlists world_three (str ''monthly'') = [?a, ?b, ?c]"
    and clk: "clock world_three = 8640000000"
    by (simp_all add: world_three_def)
  have n: "length (playlists world_three (str ''monthly'')) \<le> 50" by (simp add: pl)
  have w0: "(0::int) \<le> 30" and w1: "(30::int) < 100000000" by simp_all
  have c: "\<bar>clock world_three\<bar> \<le> 8640000000000000" by (simp add: clk)
  have t: "\<forall>entry\<in>set (playlists world_three (str ''monthly'')).
             \<bar>added_at entry\<bar> \<le> 8640000000000000"
    by (simp add: pl)
  have d: "distinct (map track_uri (playlists world_three (str ''monthly'')))"
    unfolding pl by code_simp
  have ages: "age_in_days 8640000000 (8640000000 - 30 * 86400000) = 30"
    "age_in_days 8640000000 (8640000000 - (30 - 1) * 86400000) = 29"
    "age_in_days 8640000000 0 = 100"
    by (simp_all add: age_in_days_def)
  note inst = pruner_removes_by_age[OF l r n w0 w1 c t]
  from inst have "tracksToRemove (clock world_three) 30 (playlists world_three (str ''monthly'')) =
     filter (\<lambda>entry. of_int 30 \<le> age_in_days (clock world_three) (added_at entry))
       (playlists world_three (str ''monthly''))"
    by (elim conjE)
  then have sel: "tracksToRemove (clock world_three) 30 (playlists world_three (str ''monthly'')) =
     [?a, ?c]"
    unfolding pl clk using ages by simp
  from inst have "distinct (map track_uri (playlists world_three (str ''monthly''))) \<longrightarrow>
      playlists (snd (pruneOldTracksFromPlaylist all_fulfilled (str ''monthly'') 30 world_three))
        (str ''monthly'') =
        filter (\<lambda>entry. age_in_days (clock world_three) (added_at entry) < of_int 30)
          (playlists world_three (str ''monthly''))"
    by (elim conjE)
  with d have "playlists (snd (pruneOldTracksFromPlaylist all_fulfilled (str ''monthly'') 30 world_three))
        (str ''monthly'') =
        filter (\<lambda>entry. age_in_days (clock world_three) (added_at entry) < of_int 30)
          (playlists world_three (str ''monthly''))"
    by simp
  then have kept: "playlists (snd (pruneOldTracksFromPlaylist all_fulfilled (str ''monthly'') 30 world_three))
        (str ''monthly'') = [?b]"
    unfolding pl clk using ages by simp
  show ?thesis
    by (intro conjI l r n c d sel kept)
qed

text \<open>
  The claim as stated fails when a track is on the playlist twice: the entry added 29
  days ago is not selected, and it is removed with the entry added 30 days ago, whose
  URI it has.
\<close>

theorem pruner_young_duplicate_counterexample:
  "playlists world_duplicate (str ''monthly'') =
     [\<lparr>track_uri = str ''spotify:track:X'', added_at = 0\<rparr>,
      \<lparr>track_uri = str ''spotify:track:X'', added_at = 86400000\<rparr>] \<and>
   age_in_days (clock world_duplicate) 0 = 30 \<and>
   age_in_days (clock world_duplicate) 86400000 = 29 \<and>
   tracksToRemove (clock world_duplicate) 30 (playlists world_duplicate (str ''monthly'')) =
     [\<lparr>track_uri = str ''spotify:track:X'', added_at = 0\<rparr>] \<and>
   playlists (snd (pruneOldTracksFromPlaylist all_fulfilled (str ''monthly'') 30 world_duplicate))
     (str ''monthly'') = []"
  by code_simp

text \<open>
  C9. Claimed: a second run of the pruner, at the same time and with nothing added in
  between, selects and removes nothing. The function's comment says that it removes all
  tracks that are old enough, and a \<open>TODO\<close> asks for pagination: only the first 50
  entries are listed. On a playlist of 51 old entries the first run removes 50 and the
  second run finds and removes the one that was left.
\<close>

theorem pruner_second_run_removes_more:
  "length (playlists world_51 (str ''monthly'')) = 51 \<and>
   console (snd (pruneOldTracksFromPlaylist all_fulfilled (str ''monthly'') 30 world_51)) =
     [Log_Pruned 50 (str ''monthly'')] \<and>
   console (snd (pruneOldTracksFromPlaylist all_fulfilled (str ''monthly'') 30
              (snd (pruneOldTracksFromPlaylist all_fulfilled (str ''monthly'') 30 world_51)))) =
     [Log_Pruned 50 (str ''monthly''), Log_Pruned 1 (str ''monthly'')] \<and>
   calls (snd (pruneOldTracksFromPlaylist all_fulfilled (str ''monthly'') 30
              (snd (pruneOldTracksFromPlaylist all_fulfilled (str ''monthly'') 30 world_51)))) ! 3 =
     RemoveTracksFromPlaylist (str ''monthly'') [[50]]"
  by code_simp


subsection \<open>The updater\<close>

text \<open>
  C2. Claimed: a failed refresh propagates to the caller, which answers 500, and no add
  is attempted; failed adds and a failed pruning are caught and logged. As amended. In
  \<open>src/unnamed/part_000\<close> a rejected refresh leaves \<open>addTrackToPlaylist\<close> as an
  exception after the refresh call alone, and the handler's first response is 500; with
  the refresh fulfilled the function returns normally whatever the adds and the pruner
  do, and a rejected call of the pruner is written to the console. In
  \<open>src/pages/api/dj.ts\<close> the function always returns normally: a rejected refresh is
  caught by the \<open>catch\<close> of the promise chain and logged, with no add issued, and a
  rejected add is caught and logged the same way.
\<close>

theorem refresh_failure_propagates:
  "(\<forall>e. refreshAccessToken_rejects api = Some e \<longrightarrow>
      addTrackToPlaylist cfg api spotifyURL w =
        (Inl e, w\<lparr>calls := calls w @ [RefreshAccessToken]\<rparr>) \<and>
      (\<forall>parse body tokens.
         parseSlackWebhookPayload body (NODE_ENV_is_development cfg) = Inr tokens \<and>
         isValidSlackWebhookPayload tokens \<and>
         getSpotifyURI parse (to_string (get_property tokens (str ''text''))) = Inr (Some spotifyURL) \<longrightarrow>
         fst (handler parse cfg api body w) = Inr () \<and>
         response_status (handler parse cfg api body w) = Some 500 \<and>
         calls (snd (snd (handler parse cfg api body w))) = calls w @ [RefreshAccessToken])) \<and>
   (refreshAccessToken_rejects api = None \<longrightarrow>
      fst (addTrackToPlaylist cfg api spotifyURL w) = Inr ()) \<and>
   (\<forall>e. refreshAccessToken_rejects api = None \<and>
        (getPlaylistTracks_rejects api = Some e \<or>
         getPlaylistTracks_rejects api = None \<and> removeTracksFromPlaylist_rejects api = Some e) \<longrightarrow>
      console (snd (addTrackToPlaylist cfg api spotifyURL w)) =
        console w @ [Error_FailedToAdd spotifyURL e]) \<and>
   fst (addTrackToPlaylist_dj cfg api spotifyURL w) = Inr () \<and>
   (\<forall>e. refreshAccessToken_rejects api = Some e \<longrightarrow>
      snd (addTrackToPlaylist_dj cfg api spotifyURL w) =
        w\<lparr>calls := calls w @ [RefreshAccessToken],
          console := console w @ [Log_SomethingWentWrong e]\<rparr>) \<and>
   (\<forall>e. refreshAccessToken_rejects api = None \<and> addTracksToPlaylist_rejects api 0 = Some e \<longrightarrow>
      snd (addTrackToPlaylist_dj cfg api spotifyURL w) =
        w\<lparr>calls := calls w @ [RefreshAccessToken,
                               AddTracksToPlaylist (SPOTIFY_PLAYLIST_ID cfg) [spotifyURL]],
          console := console w @ [Log_Data, Log_SomethingWentWrong e]\<rparr>)"
proof -
  have a: "\<forall>e. refreshAccessToken_rejects api = Some e \<longrightarrow>
      addTrackToPlaylist cfg api spotifyURL w =
        (Inl e, w\<lparr>calls := calls w @ [RefreshAccessToken]\<rparr>) \<and>
      (\<forall>parse body tokens.
         parseSlackWebhookPayload body (NODE_ENV_is_development cfg) = Inr tokens \<and>
         isValidSlackWebhookPayload tokens \<and>
         getSpotifyURI parse (to_string (get_property tokens (str ''text''))) = Inr (Some spotifyURL) \<longrightarrow>
         fst (handler parse cfg api body w) = Inr () \<and>
         response_status (handler parse cfg api body w) = Some 500 \<and>
         calls (snd (snd (handler parse cfg api body w))) = calls w @ [RefreshAccessToken])"
    by (simp add: handler_reaches_updater updater_refresh_rejected response_status_def)
  have b: "refreshAccessToken_rejects api = None \<longrightarrow>
      fst (addTrackToPlaylist cfg api spotifyURL w) = Inr ()"
    by (simp add: updater_returns)
  have c: "\<forall>e. refreshAccessToken_rejects api = None \<and>
        (getPlaylistTracks_rejects api = Some e \<or>
         getPlaylistTracks_rejects api = None \<and> removeTracksFromPlaylist_rejects api = Some e) \<longrightarrow>
      console (snd (addTrackToPlaylist cfg api spotifyURL w)) =
        console w @ [Error_FailedToAdd spotifyURL e]"
    using updater_prune_logged[of api _ cfg spotifyURL w] by blast
  have d: "fst (addTrackToPlaylist_dj cfg api spotifyURL w) = Inr ()"
    by (rule updater_dj_returns)
  have e: "\<forall>e. refreshAccessToken_rejects api = Some e \<longrightarrow>
      snd (addTrackToPlaylist_dj cfg api spotifyURL w) =
        w\<lparr>calls := calls w @ [RefreshAccessToken],
          console := console w @ [Log_SomethingWentWrong e]\<rparr>"
    by (simp add: updater_dj_refresh_rejected)
  have f: "\<forall>e. refreshAccessToken_rejects api = None \<and> addTracksToPlaylist_rejects api 0 = Some e \<longrightarrow>
      snd (addTrackToPlaylist_dj cfg api spotifyURL w) =
        w\<lparr>calls := calls w @ [RefreshAccessToken,
                               AddTracksToPlaylist (SPOTIFY_PLAYLIST_ID cfg) [spotifyURL]],
          console := console w @ [Log_Data, Log_SomethingWentWrong e]\<rparr>"
    by (simp add: updater_dj_add_rejected)
  show ?thesis
    by (intro conjI a b c d e f)
qed

theorem refresh_failure_propagates_witness:
  "refreshAccessToken_rejects refresh_rejected = Some WebapiError \<and>
   fst (addTrackToPlaylist example_env refresh_rejected
          (str ''spotify:track:6J1Qcreg3a9hlJuvJCvjl5'') empty_world) = Inl WebapiError \<and>
   calls (snd (addTrackToPlaylist example_env refresh_rejected
          (str ''spotify:track:6J1Qcreg3a9hlJuvJCvjl5'') empty_world)) = [RefreshAccessToken] \<and>
   response_status
     (handler spotifyUri_parse example_env refresh_rejected (PString example_payload) empty_world) =
     Some 500 \<and>
   calls (snd (snd
     (handler spotifyUri_parse example_env refresh_rejected (PString example_payload) empty_world))) =
     [RefreshAccessToken]"
proof -
  let ?url = "str ''spotify:track:6J1Qcreg3a9hlJuvJCvjl5''"
  let ?tokens = "PObject (parseSlackWebhookPayload_dj example_payload)"
  have r: "refreshAccessToken_rejects refresh_rejected = Some WebapiError"
    by (simp add: refresh_rejected_def all_fulfilled_def)
  have p: "parseSlackWebhookPayload (PString example_payload) (NODE_ENV_is_development example_env) =
             Inr ?tokens"
    by (simp add: parseSlackWebhookPayload_def parseSlackWebhookPayload_dj_def example_env_def)
  have v: "isValidSlackWebhookPayload ?tokens" by code_simp
  have g: "getSpotifyURI spotifyUri_parse (to_string (get_property ?tokens (str ''text''))) =
             Inr (Some ?url)"
    by code_simp
  have c0: "calls empty_world = []" by (simp add: empty_world_def)
  note inst = refresh_failure_propagates[of refresh_rejected example_env ?url empty_world]
  from inst have a: "\<forall>e. refreshAccessToken_rejects refresh_rejected = Some e \<longrightarrow>
      addTrackToPlaylist example_env refresh_rejected ?url empty_world =
        (Inl e, empty_world\<lparr>calls := calls empty_world @ [RefreshAccessToken]\<rparr>) \<and>
      (\<forall>parse body tokens.
         parseSlackWebhookPayload body (NODE_ENV_is_development example_env) = Inr tokens \<and>
         isValidSlackWebhookPayload tokens \<and>
         getSpotifyURI parse (to_string (get_property tokens (str ''text''))) = Inr (Some ?url) \<longrightarrow>
         fst (handler parse example_env refresh_rejected body empty_world) = Inr () \<and>
         response_status (handler parse example_env refresh_rejected body empty_world) = Some 500 \<and>
         calls (snd (snd (handler parse example_env refresh_rejected body empty_world))) =
           calls empty_world @ [RefreshAccessToken])"
    by (elim conjE)
  from a[rule_format, OF r] have u: "addTrackToPlaylist example_env refresh_rejected ?url empty_world =
        (Inl WebapiError, empty_world\<lparr>calls := calls empty_world @ [RefreshAccessToken]\<rparr>)"
    and h: "\<forall>parse body tokens.
         parseSlackWebhookPayload body (NODE_ENV_is_development example_env) = Inr tokens \<and>
         isValidSlackWebhookPayload tokens \<and>
         getSpotifyURI parse (to_string (get_property tokens (str ''text''))) = Inr (Some ?url) \<longrightarrow>
         fst (handler parse example_env refresh_rejected body empty_world) = Inr () \<and>
         response_status (handler parse example_env refresh_rejected body empty_world) = Some 500 \<and>
         calls (snd (snd (handler parse example_env refresh_rejected body empty_world))) =
           calls empty_world @ [RefreshAccessToken]"
    by simp_all
  from h[rule_format, of "PString example_payload" ?tokens spotifyUri_parse] p v g have hs:
    "response_status
       (handler spotifyUri_parse example_env refresh_rejected (PString example_payload) empty_world) =
     Some 500"
    "calls (snd (snd
       (handler spotifyUri_parse example_env refresh_rejected (PString example_payload) empty_world))) =
     calls empty_world @ [RefreshAccessToken]"
    by simp_all
  have u1: "fst (addTrackToPlaylist example_env refresh_rejected ?url empty_world) = Inl WebapiError"
    unfolding u by simp
  have u2: "calls (snd (addTrackToPlaylist example_env refresh_rejected ?url empty_world)) =
      [RefreshAccessToken]"
    unfolding u by (simp add: c0)
  show ?thesis
    using hs unfolding c0 by (intro conjI r u1 u2) simp_all
qed

text \<open>
  The claim as stated fails in \<open>src/pages/api/dj.ts\<close>, where a rejected refresh does not
  reach the caller; and in \<open>src/unnamed/part_000\<close> two rejected adds leave no line on
  the console but the one that reports success.
\<close>

theorem refresh_failure_counterexample:
  "refreshAccessToken_rejects refresh_rejected = Some WebapiError \<and>
   fst (addTrackToPlaylist_dj example_env refresh_rejected
          (str ''spotify:track:6J1Qcreg3a9hlJuvJCvjl5'') empty_world) = Inr () \<and>
   console (snd (addTrackToPlaylist_dj example_env refresh_rejected
          (str ''spotify:track:6J1Qcreg3a9hlJuvJCvjl5'') empty_world)) =
     [Log_SomethingWentWrong WebapiError] \<and>
   addTracksToPlaylist_rejects adds_rejected 0 = Some WebapiError \<and>
   addTracksToPlaylist_rejects adds_rejected 1 = Some WebapiError \<and>
   console (snd (addTrackToPlaylist example_env adds_rejected
          (str ''spotify:track:6J1Qcreg3a9hlJuvJCvjl5'') empty_world)) =
     [Log_Pruned 0 (str ''monthly''), Log_Added (str ''spotify:track:6J1Qcreg3a9hlJuvJCvjl5'')]"
  by code_simp

text \<open>
  C4. When the refresh is fulfilled, whatever the two adds do: one add is issued to the
  archive playlist and one to the monthly playlist, both before the pruner's list call;
  the settle-all step reports how each settled and raises nothing; an add that is
  fulfilled puts the track on its playlist whether or not the other is rejected; the
  function returns normally, and the handler that reached it answers 200 once and
  leaves the world exactly as the updater left it. (The pruner, which runs next,
  deletes by URI: the new entry of the monthly playlist outlasts it when the URI was not
  on that playlist before.)
\<close>

theorem adds_settle_independently:
  assumes "refreshAccessToken_rejects api = None"
  shows "fst (addTrackToPlaylist cfg api spotifyURL w) = Inr () \<and>
   (\<exists>later. calls (snd (addTrackToPlaylist cfg api spotifyURL w)) =
        calls w @ [RefreshAccessToken,
                   AddTracksToPlaylist (SPOTIFY_ARCHIVE_PLAYLIST_ID cfg) [spotifyURL],
                   AddTracksToPlaylist (SPOTIFY_MONTHLY_PLAYLIST_ID cfg) [spotifyURL],
                   GetPlaylistTracks (SPOTIFY_MONTHLY_PLAYLIST_ID cfg) 50] @ later \<and>
        (\<forall>c\<in>set later. \<exists>tracks. c = RemoveTracksFromPlaylist (SPOTIFY_MONTHLY_PLAYLIST_ID cfg) tracks)) \<and>
   fst (add_to_archive_and_monthly cfg api spotifyURL (w\<lparr>calls := calls w @ [RefreshAccessToken]\<rparr>)) =
     (addTracksToPlaylist_rejects api 0, addTracksToPlaylist_rejects api 1) \<and>
   (addTracksToPlaylist_rejects api 0 = None \<longrightarrow>
      \<lparr>track_uri = spotifyURL, added_at = clock w\<rparr> \<in>
        set (playlists (snd (add_to_archive_and_monthly cfg api spotifyURL
                               (w\<lparr>calls := calls w @ [RefreshAccessToken]\<rparr>)))
               (SPOTIFY_ARCHIVE_PLAYLIST_ID cfg))) \<and>
   (addTracksToPlaylist_rejects api 1 = None \<longrightarrow>
      \<lparr>track_uri = spotifyURL, added_at = clock w\<rparr> \<in>
        set (playlists (snd (add_to_archive_and_monthly cfg api spotifyURL
                               (w\<lparr>calls := calls w @ [RefreshAccessToken]\<rparr>)))
               (SPOTIFY_MONTHLY_PLAYLIST_ID cfg))) \<and>
   (addTracksToPlaylist_rejects api 0 = None \<and>
    SPOTIFY_ARCHIVE_PLAYLIST_ID cfg \<noteq> SPOTIFY_MONTHLY_PLAYLIST_ID cfg \<longrightarrow>
      playlists (snd (addTrackToPlaylist cfg api spotifyURL w)) (SPOTIFY_ARCHIVE_PLAYLIST_ID cfg) =
        playlists w (SPOTIFY_ARCHIVE_PLAYLIST_ID cfg) @ [\<lparr>track_uri = spotifyURL, added_at = clock w\<rparr>]) \<and>
   (addTracksToPlaylist_rejects api 1 = None \<and>
    spotifyURL \<notin> track_uri ` set (playlists w (SPOTIFY_MONTHLY_PLAYLIST_ID cfg)) \<longrightarrow>
      \<lparr>track_uri = spotifyURL, added_at = clock w\<rparr> \<in>
        set (playlists (snd (addTrackToPlaylist cfg api spotifyURL w)) (SPOTIFY_MONTHLY_PLAYLIST_ID cfg))) \<and>
   (\<forall>parse body tokens.
      parseSlackWebhookPayload body (NODE_ENV_is_development cfg) = Inr tokens \<and>
      isValidSlackWebhookPayload tokens \<and>
      getSpotifyURI parse (to_string (get_property tokens (str ''text''))) = Inr (Some spotifyURL) \<longrightarrow>
      fst (handler parse cfg api body w) = Inr () \<and>
      response_status (handler parse cfg api body w) = Some 200 \<and>
      fst (snd (handler parse cfg api body w)) = [200] \<and>
      snd (snd (handler parse cfg api body w)) = snd (addTrackToPlaylist cfg api spotifyURL w))"
proof -
  let ?w1 = "w\<lparr>calls := calls w @ [RefreshAccessToken]\<rparr>"
  have clock: "clock ?w1 = clock w" by simp
  have a: "fst (addTrackToPlaylist cfg api spotifyURL w) = Inr ()"
    by (rule updater_returns[OF assms])
  have c: "fst (add_to_archive_and_monthly cfg api spotifyURL ?w1) =
     (addTracksToPlaylist_rejects api 0, addTracksToPlaylist_rejects api 1)"
    by (rule settled_results)
  have d: "addTracksToPlaylist_rejects api 0 = None \<longrightarrow>
      \<lparr>track_uri = spotifyURL, added_at = clock w\<rparr> \<in>
        set (playlists (snd (add_to_archive_and_monthly cfg api spotifyURL ?w1))
               (SPOTIFY_ARCHIVE_PLAYLIST_ID cfg))"
    using settled_archive[of api spotifyURL ?w1 cfg] unfolding clock by blast
  have e: "addTracksToPlaylist_rejects api 1 = None \<longrightarrow>
      \<lparr>track_uri = spotifyURL, added_at = clock w\<rparr> \<in>
        set (playlists (snd (add_to_archive_and_monthly cfg api spotifyURL ?w1))
               (SPOTIFY_MONTHLY_PLAYLIST_ID cfg))"
    using settled_monthly[of api spotifyURL ?w1 cfg] unfolding clock by blast
  have f: "addTracksToPlaylist_rejects api 0 = None \<and>
    SPOTIFY_ARCHIVE_PLAYLIST_ID cfg \<noteq> SPOTIFY_MONTHLY_PLAYLIST_ID cfg \<longrightarrow>
      playlists (snd (addTrackToPlaylist cfg api spotifyURL w)) (SPOTIFY_ARCHIVE_PLAYLIST_ID cfg) =
        playlists w (SPOTIFY_ARCHIVE_PLAYLIST_ID cfg) @ [\<lparr>track_uri = spotifyURL, added_at = clock w\<rparr>]"
    using updater_archive_effect[OF assms] by blast
  have g: "addTracksToPlaylist_rejects api 1 = None \<and>
    spotifyURL \<notin> track_uri ` set (playlists w (SPOTIFY_MONTHLY_PLAYLIST_ID cfg)) \<longrightarrow>
      \<lparr>track_uri = spotifyURL, added_at = clock w\<rparr> \<in>
        set (playlists (snd (addTrackToPlaylist cfg api spotifyURL w)) (SPOTIFY_MONTHLY_PLAYLIST_ID cfg))"
    using updater_monthly_effect[OF assms] by blast
  have h: "\<forall>parse body tokens.
      parseSlackWebhookPayload body (NODE_ENV_is_development cfg) = Inr tokens \<and>
      isValidSlackWebhookPayload tokens \<and>
      getSpotifyURI parse (to_string (get_property tokens (str ''text''))) = Inr (Some spotifyURL) \<longrightarrow>
      fst (handler parse cfg api body w) = Inr () \<and>
      response_status (handler parse cfg api body w) = Some 200 \<and>
      fst (snd (handler parse cfg api body w)) = [200] \<and>
      snd (snd (handler parse cfg api body w)) = snd (addTrackToPlaylist cfg api spotifyURL w)"
    by (simp add: handler_reaches_updater updater_returns[OF assms] response_status_def)
  show ?thesis
    by (intro conjI a updater_calls[OF assms] c d e f g h)
qed

theorem adds_settle_independently_witness:
  "refreshAccessToken_rejects monthly_add_rejected = None \<and>
   addTracksToPlaylist_rejects monthly_add_rejected 0 = None \<and>
   addTracksToPlaylist_rejects monthly_add_rejected 1 = Some WebapiError \<and>
   fst (handler spotifyUri_parse example_env monthly_add_rejected (PString example_payload) empty_world) = Inr () \<and>
   response_status
     (handler spotifyUri_parse example_env monthly_add_rejected (PString example_payload) empty_world) =
     Some 200 \<and>
   playlists (snd (addTrackToPlaylist example_env monthly_add_rejected
                (str ''spotify:track:6J1Qcreg3a9hlJuvJCvjl5'') empty_world)) (str ''archive'') =
     [\<lparr>track_uri = str ''spotify:track:6J1Qcreg3a9hlJuvJCvjl5'', added_at = clock empty_world\<rparr>] \<and>
   playlists (snd (addTrackToPlaylist example_env monthly_add_rejected
                (str ''spotify:track:6J1Qcreg3a9hlJuvJCvjl5'') empty_world)) (str ''monthly'') = [] \<and>
   playlists (snd (snd
     (handler spotifyUri_parse example_env monthly_add_rejected (PString example_payload) empty_world)))
     (str ''archive'') =
     [\<lparr>track_uri = str ''spotify:track:6J1Qcreg3a9hlJuvJCvjl5'', added_at = clock empty_world\<rparr>] \<and>
   playlists (snd (snd
     (handler spotifyUri_parse example_env monthly_add_rejected (PString example_payload) empty_world)))
     (str ''monthly'') = [] \<and>
   calls (snd (snd
     (handler spotifyUri_parse example_env monthly_add_rejected (PString example_payload) empty_world))) =
     [RefreshAccessToken,
      AddTracksToPlaylist (str ''archive'') [str ''spotify:track:6J1Qcreg3a9hlJuvJCvjl5''],
      AddTracksToPlaylist (str ''monthly'') [str ''spotify:track:6J1Qcreg3a9hlJuvJCvjl5''],
      GetPlaylistTracks (str ''monthly'') 50,
      RemoveTracksFromPlaylist (str ''monthly'') []]"
proof -
  let ?url = "str ''spotify:track:6J1Qcreg3a9hlJuvJCvjl5''"
  let ?tokens = "PObject (parseSlackWebhookPayload_dj example_payload)"
  let ?h = "handler spotifyUri_parse example_env monthly_add_rejected (PString example_payload) empty_world"
  let ?u = "addTrackToPlaylist example_env monthly_add_rejected ?url empty_world"
  have r: "refreshAccessToken_rejects monthly_add_rejected = None"
    by (simp add: monthly_add_rejected_def all_fulfilled_def)
  have a0: "addTracksToPlaylist_rejects monthly_add_rejected 0 = None"
    by (simp add: monthly_add_rejected_def all_fulfilled_def)
  have a1: "addTracksToPlaylist_rejects monthly_add_rejected 1 = Some WebapiError"
    by (simp add: monthly_add_rejected_def all_fulfilled_def)
  have p: "parseSlackWebhookPayload (PString example_payload) (NODE_ENV_is_development example_env) =
             Inr ?tokens"
    by (simp add: parseSlackWebhookPayload_def parseSlackWebhookPayload_dj_def example_env_def)
  have v: "isValidSlackWebhookPayload ?tokens" by code_simp
  have g: "getSpotifyURI spotifyUri_parse (to_string (get_property ?tokens (str ''text''))) =
             Inr (Some ?url)"
    by code_simp
  have ids: "SPOTIFY_ARCHIVE_PLAYLIST_ID example_env \<noteq> SPOTIFY_MONTHLY_PLAYLIST_ID example_env"
    by code_simp
  have m: "playlists (snd ?u) (str ''monthly'') = []"
    by code_simp
  have cs: "calls (snd ?u) =
     [RefreshAccessToken,
      AddTracksToPlaylist (str ''archive'') [?url],
      AddTracksToPlaylist (str ''monthly'') [?url],
      GetPlaylistTracks (str ''monthly'') 50,
      RemoveTracksFromPlaylist (str ''monthly'') []]"
    by code_simp
  note inst = adds_settle_independently[OF r, of example_env ?url empty_world]
  from inst have h: "\<forall>parse body tokens.
      parseSlackWebhookPayload body (NODE_ENV_is_development example_env) = Inr tokens \<and>
      isValidSlackWebhookPayload tokens \<and>
      getSpotifyURI parse (to_string (get_property tokens (str ''text''))) = Inr (Some ?url) \<longrightarrow>
      fst (handler parse example_env monthly_add_rejected body empty_world) = Inr () \<and>
      response_status (handler parse example_env monthly_add_rejected body empty_world) = Some 200 \<and>
      fst (snd (handler parse example_env monthly_add_rejected body empty_world)) = [200] \<and>
      snd (snd (handler parse example_env monthly_add_rejected body empty_world)) = snd ?u"
    by (elim conjE)
  from inst have ar: "addTracksToPlaylist_rejects monthly_add_rejected 0 = None \<and>
    SPOTIFY_ARCHIVE_PLAYLIST_ID example_env \<noteq> SPOTIFY_MONTHLY_PLAYLIST_ID example_env \<longrightarrow>
      playlists (snd ?u) (SPOTIFY_ARCHIVE_PLAYLIST_ID example_env) =
      playlists empty_world (SPOTIFY_ARCHIVE_PLAYLIST_ID example_env) @
        [\<lparr>track_uri = ?url, added_at = clock empty_world\<rparr>]"
    by (elim conjE)
  from h[rule_format, of "PString example_payload" ?tokens spotifyUri_parse] p v g have hs:
    "fst ?h = Inr ()"
    "response_status ?h = Some 200"
    and link: "snd (snd ?h) = snd ?u"
    by simp_all
  from ar a0 ids have
    "playlists (snd ?u) (SPOTIFY_ARCHIVE_PLAYLIST_ID example_env) =
     playlists empty_world (SPOTIFY_ARCHIVE_PLAYLIST_ID example_env) @
       [\<lparr>track_uri = ?url, added_at = clock empty_world\<rparr>]"
    by simp
  then have ap: "playlists (snd ?u) (str ''archive'') =
      [\<lparr>track_uri = ?url, added_at = clock empty_world\<rparr>]"
    by (simp add: example_env_def empty_world_def)
  have hap: "playlists (snd (snd ?h)) (str ''archive'') =
      [\<lparr>track_uri = ?url, added_at = clock empty_world\<rparr>]"
    unfolding link by (rule ap)
  have hm: "playlists (snd (snd ?h)) (str ''monthly'') = []"
    unfolding link by (rule m)
  have hcs: "calls (snd (snd ?h)) =
     [RefreshAccessToken,
      AddTracksToPlaylist (str ''archive'') [?url],
      AddTracksToPlaylist (str ''monthly'') [?url],
      GetPlaylistTracks (str ''monthly'') 50,
      RemoveTracksFromPlaylist (str ''monthly'') []]"
    unfolding link by (rule cs)
  show ?thesis
    by (intro conjI r a0 a1 hs ap m hap hm hcs)
qed

end
